theory Spec2Isabelle
  imports Main
begin

section \<open>Calendar dates and the runtime's \<open>Date\<close>\<close>

text \<open>
  The handler works with date-only ISO strings \<open>YYYY-MM-DD\<close>: \<open>today\<close> is the UTC date
  portion of the clock (\<open>toISOString().split('T')[0]\<close>) and \<open>last_message_date\<close> is the
  date column the handler itself writes \<open>today\<close> into. Such a string is modelled by its three
  numbers; two strings are equal exactly when the records are.

  ECMAScript parses a date-only string as UTC midnight of that day, so
  \<open>new Date(s).getTime()\<close> is the day number of the date times the milliseconds of a day.
  The day number follows the language definition: \<open>DayFromYear\<close>, the leap year rule and
  the days of the months before.
\<close>

record date =
  year :: int
  month :: int
  day :: int

definition msPerDay :: int where
  "msPerDay = 86400000"

definition DayFromYear :: "int \<Rightarrow> int" where
  "DayFromYear y =
     365 * (y - 1970) + (y - 1969) div 4 - (y - 1901) div 100 + (y - 1601) div 400"

definition InLeapYear :: "int \<Rightarrow> bool" where
  "InLeapYear y \<longleftrightarrow> y mod 4 = 0 \<and> (y mod 100 \<noteq> 0 \<or> y mod 400 = 0)"

definition DaysInMonth :: "int \<Rightarrow> int \<Rightarrow> int" where
  "DaysInMonth y m =
     (if m = 2 then (if InLeapYear y then 29 else 28)
      else if m = 4 \<or> m = 6 \<or> m = 9 \<or> m = 11 then 30
      else 31)"

definition DaysBeforeMonth :: "int \<Rightarrow> int \<Rightarrow> int" where
  "DaysBeforeMonth y m =
     (let leap = (if InLeapYear y then 1 else 0) in
      if m \<le> 1 then 0
      else if m = 2 then 31
      else if m = 3 then 59 + leap
      else if m = 4 then 90 + leap
      else if m = 5 then 120 + leap
      else if m = 6 then 151 + leap
      else if m = 7 then 181 + leap
      else if m = 8 then 212 + leap
      else if m = 9 then 243 + leap
      else if m = 10 then 273 + leap
      else if m = 11 then 304 + leap
      else 334 + leap)"

definition MakeDay :: "date \<Rightarrow> int" where
  "MakeDay d = DayFromYear (year d) + DaysBeforeMonth (year d) (month d) + day d - 1"

definition getTime :: "date \<Rightarrow> int" where
  "getTime d = MakeDay d * msPerDay"

text \<open>
  The dates that a date column and \<open>toISOString\<close> can hold, and the day after a date in
  the calendar. The handler uses neither; they say what "one calendar day later" means.
\<close>

definition valid_date :: "date \<Rightarrow> bool" where
  "valid_date d \<longleftrightarrow>
     1 \<le> month d \<and> month d \<le> 12 \<and> 1 \<le> day d \<and> day d \<le> DaysInMonth (year d) (month d)"

definition nextDay :: "date \<Rightarrow> date" where
  "nextDay d =
     (if day d < DaysInMonth (year d) (month d) then d\<lparr>day := day d + 1\<rparr>
      else if month d < 12 then d\<lparr>month := month d + 1, day := 1\<rparr>
      else d\<lparr>year := year d + 1, month := 1, day := 1\<rparr>)"

section \<open>Rows of the backend and the request\<close>

text \<open>The four columns of \<open>profiles\<close> that the handler selects and updates.\<close>

record profile =
  reward_points :: int
  daily_streak :: int
  last_message_date :: "date option"
  total_messages :: int

record reward_transaction =
  user_id :: string
  points_change :: int
  transaction_type :: string
  description :: string

record message_row =
  conversation_id :: string
  msg_user_id :: string
  msg_content :: string
  msg_role :: string
  tokens_used :: "int option"
  response_time_ms :: "int option"

datatype chat_role = user | assistant

record ChatMessage =
  role :: chat_role
  content :: string

record ChatRequest =
  messages :: "ChatMessage list option"
  conversationId :: "string option"
  boost :: "bool option"

text \<open>
  The HTTP request: its method, its body (\<open>Inl\<close> the message of the exception that
  \<open>req.json()\<close> throws on a body that is not JSON) and the Authorization header.
\<close>

record http_request =
  req_method :: string
  req_json :: "string + ChatRequest"
  req_authorization :: "string option"

record gemini_message =
  gemini_role :: string
  gemini_text :: string

text \<open>
  What the completion API answers: the fetch or the reading of its body throws, or the
  status is not a success, or the body arrives with its candidates and its token count.
  A candidate is modelled by the text of its first part, which the handler reads.
\<close>

record gemini_data =
  candidates :: "string list option"
  totalTokenCount :: "int option"

datatype gemini_outcome =
    FetchThrows string
  | NotOk int
  | OkBody gemini_data

text \<open>
  Everything outside the handler that one request depends on: whether the backend client can
  be created from the configured URL and key (\<open>Some\<close> the message of the exception when
  it cannot), the identity service, the configured API key, the answer of the completion
  API, the clock, and whether the backend reports an error on the profile read, the profile
  update and the ledger insert.
\<close>

record env =
  clientError :: "string option"
  getUser :: "string \<Rightarrow> string option"
  profileError :: bool
  googleApiKey :: "string option"
  gemini :: gemini_outcome
  startTime :: int
  endTime :: int
  today :: date
  updateError :: bool
  transactionError :: bool

text \<open>
  The state the handler reads and writes: the backend's tables, and the requests sent to
  the completion API so far.
\<close>

record world =
  profiles :: "string \<Rightarrow> profile option"
  reward_transactions :: "reward_transaction list"
  messages_table :: "message_row list"
  conversations :: "string \<Rightarrow> string option"
  gemini_calls :: "gemini_message list list"

datatype error =
    Thrown string
  | NoMessagesProvided
  | NoAuthorizationHeader
  | AuthenticationFailed
  | FailedToFetchProfile
  | InsufficientPoints
  | ApiKeyNotConfigured
  | GeminiApiError int
  | NoResponseFromGemini

record chat_response =
  response :: string
  tokensUsed :: int
  responseTime :: int
  pointsEarned :: int
  pointsSpent :: int
  newStreak :: int
  totalPoints :: int

datatype http_response =
    CorsPreflight
  | Ok200 chat_response
  | Error500 error

section \<open>Strings\<close>

text \<open>\<open>String.prototype.replace\<close> with a string pattern: the first occurrence only.\<close>

fun replace_first :: "string \<Rightarrow> string \<Rightarrow> string \<Rightarrow> string" where
  "replace_first pat rep [] = (if pat = [] then rep else [])"
| "replace_first pat rep (c # cs) =
     (if take (length pat) (c # cs) = pat then rep @ drop (length pat) (c # cs)
      else c # replace_first pat rep cs)"

text \<open>The decimal digits of an integer, as a template literal prints it.\<close>

definition digit :: "nat \<Rightarrow> char" where
  "digit n = ''0123456789'' ! n"

fun decimal :: "nat \<Rightarrow> string" where
  "decimal n = (if n < 10 then [digit n] else decimal (n div 10) @ [digit (n mod 10)])"

declare decimal.simps [simp del]

definition toString :: "int \<Rightarrow> string" where
  "toString i = (if i < 0 then CHR ''-'' # decimal (nat (- i)) else decimal (nat i))"

definition contains :: "string \<Rightarrow> string \<Rightarrow> bool" where
  "contains s t \<longleftrightarrow> (\<exists>i \<in> set (upt 0 (Suc (length s))). take (length t) (drop i s) = t)"

section \<open>The chat handler\<close>

subsection \<open>Request data and the authenticated user (lines 29 to 51)\<close>

definition parse_and_auth ::
  "http_request \<Rightarrow> env \<Rightarrow> error + (ChatMessage list \<times> string option \<times> bool \<times> string)" where
  "parse_and_auth req e =
     (case req_json req of
        Inl msg \<Rightarrow> Inl (Thrown msg)
      | Inr body \<Rightarrow>
         (let b = (case boost body of None \<Rightarrow> False | Some v \<Rightarrow> v) in
          case messages body of
            None \<Rightarrow> Inl NoMessagesProvided
          | Some ms \<Rightarrow>
             if length ms = 0 then Inl NoMessagesProvided
             else (case clientError e of
                     Some msg \<Rightarrow> Inl (Thrown msg)
                   | None \<Rightarrow>
                      (case req_authorization req of
                         None \<Rightarrow> Inl NoAuthorizationHeader
                       | Some authHeader \<Rightarrow>
                          if authHeader = [] then Inl NoAuthorizationHeader
                          else
                           (let token = replace_first ''Bearer '' '''' authHeader in
                            case getUser e token of
                              None \<Rightarrow> Inl AuthenticationFailed
                            | Some u \<Rightarrow> Inr (ms, conversationId body, b, u))))))"

subsection \<open>The profile read (lines 56 to 65)\<close>

definition fetch_profile :: "env \<Rightarrow> world \<Rightarrow> string \<Rightarrow> error + profile" where
  "fetch_profile e w u =
     (if profileError e then Inl FailedToFetchProfile
      else case profiles w u of
             None \<Rightarrow> Inl FailedToFetchProfile
           | Some p \<Rightarrow> Inr p)"

subsection \<open>The completion request (lines 72 to 127)\<close>

definition systemMessage :: "bool \<Rightarrow> string" where
  "systemMessage b =
     (if b then ''You are a highly intelligent and helpful AI assistant. Provide detailed, accurate, and priority responses.''
      else ''You are a helpful AI assistant. Provide clear and accurate responses.'')"

definition geminiMessages :: "bool \<Rightarrow> ChatMessage list \<Rightarrow> gemini_message list" where
  "geminiMessages b ms =
     \<lparr>gemini_role = ''user'', gemini_text = systemMessage b\<rparr> #
     map (\<lambda>msg. \<lparr>gemini_role = (if role msg = assistant then ''model'' else ''user''),
                 gemini_text = content msg\<rparr>) ms"

definition ask_gemini ::
  "env \<Rightarrow> bool \<Rightarrow> ChatMessage list \<Rightarrow> world \<Rightarrow> (error + (string \<times> int \<times> int)) \<times> world" where
  "ask_gemini e b ms w =
     (case googleApiKey e of
        None \<Rightarrow> (Inl ApiKeyNotConfigured, w)
      | Some k \<Rightarrow>
         if k = [] then (Inl ApiKeyNotConfigured, w)
         else
          (let w1 = w\<lparr>gemini_calls := gemini_calls w @ [geminiMessages b ms]\<rparr> in
           case gemini e of
             FetchThrows msg \<Rightarrow> (Inl (Thrown msg), w1)
           | NotOk status \<Rightarrow> (Inl (GeminiApiError status), w1)
           | OkBody geminiData \<Rightarrow>
              (let responseTime = endTime e - startTime e in
               case candidates geminiData of
                 None \<Rightarrow> (Inl NoResponseFromGemini, w1)
               | Some [] \<Rightarrow> (Inl NoResponseFromGemini, w1)
               | Some (aiResponse # _) \<Rightarrow>
                  (let tokensUsed = (case totalTokenCount geminiData of None \<Rightarrow> 0 | Some n \<Rightarrow> n)
                   in (Inr (aiResponse, tokensUsed, responseTime), w1)))))"

subsection \<open>Points and streak (lines 132 to 157)\<close>

definition isNewDay :: "date option \<Rightarrow> date \<Rightarrow> bool" where
  "isNewDay lastMessageDate td \<longleftrightarrow> lastMessageDate = None \<or> lastMessageDate \<noteq> Some td"

definition isConsecutiveDay :: "date option \<Rightarrow> date \<Rightarrow> bool" where
  "isConsecutiveDay lastMessageDate td =
     (case lastMessageDate of
        None \<Rightarrow> False
      | Some l \<Rightarrow> getTime td - getTime l = 86400000)"

text \<open>The pair \<open>(pointsEarned, newStreak)\<close> after the streak bonus has been calculated.\<close>

definition streak_bonus :: "profile \<Rightarrow> date \<Rightarrow> int \<times> int" where
  "streak_bonus p td =
     (let lastMessageDate = last_message_date p;
          pointsEarned = 1;
          newStreak = daily_streak p
      in if isNewDay lastMessageDate td then
           (if isConsecutiveDay lastMessageDate td then (pointsEarned + 5, newStreak + 1)
            else if lastMessageDate \<noteq> None then (pointsEarned, 1)
            else (pointsEarned, 1))
         else (pointsEarned, newStreak))"

definition pointChange :: "int \<Rightarrow> bool \<Rightarrow> int" where
  "pointChange earned b = (if b then earned - 10 else earned)"

subsection \<open>The profile update (lines 160 to 172)\<close>

definition updated_profile :: "profile \<Rightarrow> date \<Rightarrow> bool \<Rightarrow> profile" where
  "updated_profile p td b =
     (let (earned, streak) = streak_bonus p td in
      \<lparr>reward_points = reward_points p + pointChange earned b,
       daily_streak = streak,
       last_message_date = Some td,
       total_messages = total_messages p + 1\<rparr>)"

definition update_profile :: "env \<Rightarrow> string \<Rightarrow> profile \<Rightarrow> bool \<Rightarrow> world \<Rightarrow> world" where
  "update_profile e u p b w =
     (if updateError e then w
      else w\<lparr>profiles := (profiles w)(u \<mapsto> updated_profile p (today e) b)\<rparr>)"

subsection \<open>The ledger entry (lines 175 to 193)\<close>

definition ledger_entry :: "string \<Rightarrow> profile \<Rightarrow> date \<Rightarrow> bool \<Rightarrow> reward_transaction option" where
  "ledger_entry u p td b =
     (let (earned, streak) = streak_bonus p td;
          change = pointChange earned b
      in if change \<noteq> 0 then
           (let transactionType = (if b then ''boost'' else if earned > 1 then ''streak'' else ''message'');
                desc = (if b then ''Boost used for priority response''
                        else if earned > 1 then ''Daily streak bonus ('' @ toString streak @ '' days)''
                        else ''Message sent'')
            in Some \<lparr>user_id = u, points_change = change,
                     transaction_type = transactionType, description = desc\<rparr>)
         else None)"

definition record_transaction :: "env \<Rightarrow> string \<Rightarrow> profile \<Rightarrow> bool \<Rightarrow> world \<Rightarrow> world" where
  "record_transaction e u p b w =
     (case ledger_entry u p (today e) b of
        None \<Rightarrow> w
      | Some t \<Rightarrow>
         if transactionError e then w
         else w\<lparr>reward_transactions := reward_transactions w @ [t]\<rparr>)"

subsection \<open>The stored messages and the conversation title (lines 196 to 233)\<close>

text \<open>
  The handler does not look at the outcome of these writes; the model takes them as
  accepted by the backend.
\<close>

definition store_messages ::
  "string \<Rightarrow> ChatMessage list \<Rightarrow> string option \<Rightarrow> string \<Rightarrow> int \<Rightarrow> int \<Rightarrow> world \<Rightarrow> world" where
  "store_messages u ms cid aiResponse tokens rt w =
     (case cid of
        None \<Rightarrow> w
      | Some c \<Rightarrow>
         if c = [] then w
         else
          (let w1 = w\<lparr>messages_table := messages_table w @
                      [\<lparr>conversation_id = c, msg_user_id = u, msg_content = content (last ms),
                        msg_role = ''user'', tokens_used = None, response_time_ms = None\<rparr>]\<rparr>;
               w2 = w1\<lparr>messages_table := messages_table w1 @
                      [\<lparr>conversation_id = c, msg_user_id = u, msg_content = aiResponse,
                        msg_role = ''assistant'', tokens_used = Some tokens,
                        response_time_ms = Some rt\<rparr>]\<rparr>;
               messageCount = filter (\<lambda>r. conversation_id r = c) (messages_table w2)
           in if length messageCount \<le> 2 then
                (let first = content (hd ms);
                     title = take 50 first @ (if length first > 50 then ''...'' else [])
                 in if conversations w2 c = None then w2
                    else w2\<lparr>conversations := (conversations w2)(c \<mapsto> title)\<rparr>)
              else w2))"

subsection \<open>From the completion to the reply (lines 131 to 248)\<close>

definition reward_and_store ::
  "env \<Rightarrow> string \<Rightarrow> profile \<Rightarrow> ChatMessage list \<Rightarrow> string option \<Rightarrow> bool \<Rightarrow>
   string \<Rightarrow> int \<Rightarrow> int \<Rightarrow> world \<Rightarrow> chat_response \<times> world" where
  "reward_and_store e u p ms cid b aiResponse tokens rt w =
     (let (earned, streak) = streak_bonus p (today e);
          change = pointChange earned b;
          w1 = update_profile e u p b w;
          w2 = record_transaction e u p b w1;
          w3 = store_messages u ms cid aiResponse tokens rt w2
      in (\<lparr>response = aiResponse, tokensUsed = tokens, responseTime = rt,
           pointsEarned = earned, pointsSpent = (if b then 10 else 0),
           newStreak = streak, totalPoints = reward_points p + change\<rparr>, w3))"

subsection \<open>The body of the try block and the handler\<close>

definition chat :: "http_request \<Rightarrow> env \<Rightarrow> world \<Rightarrow> (error + chat_response) \<times> world" where
  "chat req e w =
     (case parse_and_auth req e of
        Inl err \<Rightarrow> (Inl err, w)
      | Inr (ms, cid, b, u) \<Rightarrow>
         (case fetch_profile e w u of
            Inl err \<Rightarrow> (Inl err, w)
          | Inr p \<Rightarrow>
             if b \<and> reward_points p < 10 then (Inl InsufficientPoints, w)
             else (case ask_gemini e b ms w of
                     (Inl err, w1) \<Rightarrow> (Inl err, w1)
                   | (Inr (aiResponse, tokens, rt), w1) \<Rightarrow>
                       (case reward_and_store e u p ms cid b aiResponse tokens rt w1 of
                          (r, w2) \<Rightarrow> (Inr r, w2)))))"

definition serve :: "http_request \<Rightarrow> env \<Rightarrow> world \<Rightarrow> http_response \<times> world" where
  "serve req e w =
     (if req_method req = ''OPTIONS'' then (CorsPreflight, w)
      else case chat req e w of
             (Inl err, w1) \<Rightarrow> (Error500 err, w1)
           | (Inr r, w1) \<Rightarrow> (Ok200 r, w1))"

text \<open>The message of each error, as the reply carries it.\<close>

fun error_message :: "error \<Rightarrow> string" where
  "error_message (Thrown msg) = (if msg = [] then ''Internal server error'' else msg)"
| "error_message NoMessagesProvided = ''No messages provided''"
| "error_message NoAuthorizationHeader = ''No authorization header''"
| "error_message AuthenticationFailed = ''Authentication failed''"
| "error_message FailedToFetchProfile = ''Failed to fetch user profile''"
| "error_message InsufficientPoints = ''Insufficient points for boost. Need 10 points.''"
| "error_message ApiKeyNotConfigured = ''Google AI API key not configured''"
| "error_message (GeminiApiError status) = ''Gemini API error: '' @ toString status"
| "error_message NoResponseFromGemini = ''No response from Gemini API''"

text \<open>A sequence of requests, each with its own environment, served one after the other.\<close>

fun serve_all :: "(http_request \<times> env) list \<Rightarrow> world \<Rightarrow> http_response list \<times> world" where
  "serve_all [] w = ([], w)"
| "serve_all ((req, e) # rest) w =
     (case serve req e w of
        (r, w1) \<Rightarrow> (case serve_all rest w1 of (rs, w2) \<Rightarrow> (r # rs, w2)))"

section \<open>Notions the properties are stated with\<close>

text \<open>
  Calendar-date subtraction: the number of calendar days from one date to another, and the
  consecutive-day test as the specification words it, by that subtraction.
\<close>

definition daysBetween :: "date \<Rightarrow> date \<Rightarrow> int" where
  "daysBetween l td = MakeDay td - MakeDay l"

definition spec_isConsecutiveDay :: "date option \<Rightarrow> date \<Rightarrow> bool" where
  "spec_isConsecutiveDay lastMessageDate td =
     (case lastMessageDate of None \<Rightarrow> False | Some l \<Rightarrow> daysBetween l td = 1)"

text \<open>
  A completed interaction: the request \<open>req\<close>, authenticated as user \<open>u\<close> with boost flag
  \<open>b\<close>, finds the profile \<open>p\<close> of \<open>u\<close> in the state \<open>w\<close> and is answered with the
  success reply \<open>r\<close>, leaving the state \<open>w'\<close>.
\<close>

definition interaction ::
  "http_request \<Rightarrow> env \<Rightarrow> world \<Rightarrow> string \<Rightarrow> profile \<Rightarrow> bool \<Rightarrow> chat_response \<Rightarrow> world \<Rightarrow> bool" where
  "interaction req e w u p b r w' \<longleftrightarrow>
     (case parse_and_auth req e of
        Inl err \<Rightarrow> False
      | Inr (ms, cid, b', u') \<Rightarrow> b' = b \<and> u' = u) \<and>
     profiles w u = Some p \<and>
     serve req e w = (Ok200 r, w')"

text \<open>
  A request that reaches the balance check: it is not a preflight, it is authenticated as
  \<open>u\<close> with boost flag \<open>b\<close>, and the profile \<open>p\<close> of \<open>u\<close> has been read. It is accepted
  when the handler does not turn it down for insufficient points.
\<close>

definition reaches_check ::
  "http_request \<Rightarrow> env \<Rightarrow> world \<Rightarrow> string \<Rightarrow> profile \<Rightarrow> bool \<Rightarrow> bool" where
  "reaches_check req e w u p b \<longleftrightarrow>
     req_method req \<noteq> ''OPTIONS'' \<and>
     (case parse_and_auth req e of
        Inl err \<Rightarrow> False
      | Inr (ms, cid, b', u') \<Rightarrow> b' = b \<and> u' = u) \<and>
     fetch_profile e w u = Inr p"

definition accepted ::
  "http_request \<Rightarrow> env \<Rightarrow> world \<Rightarrow> string \<Rightarrow> profile \<Rightarrow> bool \<Rightarrow> bool" where
  "accepted req e w u p b \<longleftrightarrow>
     reaches_check req e w u p b \<and> fst (serve req e w) \<noteq> Error500 InsufficientPoints"

text \<open>The net point delta of a reply: the points earned minus the points spent.\<close>

definition netDelta :: "chat_response \<Rightarrow> int" where
  "netDelta r = pointsEarned r - pointsSpent r"

section \<open>An example request, environment and state\<close>

text \<open>
  One user with one profile row and empty ledger, a request of one message without a
  conversation, and an environment in which every collaborator answers: the inputs at which
  the theorems below are instantiated.
\<close>

definition ex_messages :: "ChatMessage list" where
  "ex_messages = [\<lparr>role = user, content = ''Hello''\<rparr>]"

definition ex_request :: "bool \<Rightarrow> http_request" where
  "ex_request b =
     \<lparr>req_method = ''POST'',
      req_json = Inr \<lparr>messages = Some ex_messages, conversationId = None, boost = Some b\<rparr>,
      req_authorization = Some ''Bearer token-1''\<rparr>"

definition ex_env :: "date \<Rightarrow> env" where
  "ex_env d =
     \<lparr>clientError = None,
      getUser = (\<lambda>t. if t = ''token-1'' then Some ''user-1'' else None),
      profileError = False,
      googleApiKey = Some ''key'',
      gemini = OkBody \<lparr>candidates = Some [''Hi there''], totalTokenCount = Some 12\<rparr>,
      startTime = 1000, endTime = 1350, today = d,
      updateError = False, transactionError = False\<rparr>"

definition ex_world :: "profile \<Rightarrow> world" where
  "ex_world p =
     \<lparr>profiles = [''user-1'' \<mapsto> p], reward_transactions = [], messages_table = [],
      conversations = Map.empty, gemini_calls = []\<rparr>"

definition ex_profile :: "int \<Rightarrow> int \<Rightarrow> date option \<Rightarrow> int \<Rightarrow> profile" where
  "ex_profile pts streak lastDate msgs =
     \<lparr>reward_points = pts, daily_streak = streak, last_message_date = lastDate,
      total_messages = msgs\<rparr>"

definition ex_reply :: "int \<Rightarrow> int \<Rightarrow> int \<Rightarrow> int \<Rightarrow> chat_response" where
  "ex_reply earned spent streak balance =
     \<lparr>response = ''Hi there'', tokensUsed = 12, responseTime = 350,
      pointsEarned = earned, pointsSpent = spent, newStreak = streak, totalPoints = balance\<rparr>"

definition ex_after :: "bool \<Rightarrow> profile \<Rightarrow> reward_transaction list \<Rightarrow> world" where
  "ex_after b p ts =
     \<lparr>profiles = [''user-1'' \<mapsto> p], reward_transactions = ts, messages_table = [],
      conversations = Map.empty, gemini_calls = [geminiMessages b ex_messages]\<rparr>"

definition boost_entry :: "int \<Rightarrow> reward_transaction" where
  "boost_entry change =
     \<lparr>user_id = ''user-1'', points_change = change, transaction_type = ''boost'',
      description = ''Boost used for priority response''\<rparr>"

definition streak_entry :: reward_transaction where
  "streak_entry =
     \<lparr>user_id = ''user-1'', points_change = 6, transaction_type = ''streak'',
      description = ''Daily streak bonus (4 days)''\<rparr>"

definition message_entry :: reward_transaction where
  "message_entry =
     \<lparr>user_id = ''user-1'', points_change = 1, transaction_type = ''message'',
      description = ''Message sent''\<rparr>"

definition march_9 :: date where
  "march_9 = \<lparr>year = 2024, month = 3, day = 9\<rparr>"

definition march_10 :: date where
  "march_10 = \<lparr>year = 2024, month = 3, day = 10\<rparr>"

definition march_20 :: date where
  "march_20 = \<lparr>year = 2024, month = 3, day = 20\<rparr>"

definition feb_28 :: date where
  "feb_28 = \<lparr>year = 2024, month = 2, day = 28\<rparr>"

definition feb_29 :: date where
  "feb_29 = \<lparr>year = 2024, month = 2, day = 29\<rparr>"

definition dec_31 :: date where
  "dec_31 = \<lparr>year = 2023, month = 12, day = 31\<rparr>"

definition jan_1 :: date where
  "jan_1 = \<lparr>year = 2024, month = 1, day = 1\<rparr>"

section \<open>Day numbers count calendar days\<close>

lemma div_step:
  fixes a n :: int
  assumes n: "0 < n"
  shows "(a + 1) div n = a div n + (if (a + 1) mod n = 0 then 1 else 0)"
proof -
  have r: "0 \<le> a mod n" "a mod n < n" using n by simp_all
  have a: "a = n * (a div n) + a mod n" by simp
  show ?thesis
  proof (cases "a mod n = n - 1")
    case True
    with a have eq: "a + 1 = n * (a div n + 1) + 0" by (simp add: algebra_simps)
    have "(a + 1) div n = a div n + 1"
      by (rule int_div_pos_eq [OF eq]) (use n in simp_all)
    moreover have "(a + 1) mod n = 0"
      by (rule int_mod_pos_eq [OF eq]) (use n in simp_all)
    ultimately show ?thesis by simp
  next
    case False
    with r have lt: "a mod n + 1 < n" by simp
    from a have eq: "a + 1 = n * (a div n) + (a mod n + 1)" by simp
    have "(a + 1) div n = a div n"
      by (rule int_div_pos_eq [OF eq]) (use r lt in simp_all)
    moreover have "(a + 1) mod n = a mod n + 1"
      by (rule int_mod_pos_eq [OF eq]) (use r lt in simp_all)
    ultimately show ?thesis using r by simp
  qed
qed

lemma mod_shift: "(y - n * k) mod n = y mod n" for y n k :: int
proof -
  have "(y - n * k + k * n) mod n = (y - n * k) mod n" by (rule mod_mult_self1)
  then show ?thesis by (simp add: mult.commute)
qed

lemma dvd_400_100: "y mod 400 = 0 \<Longrightarrow> y mod 100 = 0" for y :: int
proof -
  assume "y mod 400 = 0"
  then have "400 dvd y" by (simp add: dvd_eq_mod_eq_0)
  moreover have "(100::int) dvd 400" by simp
  ultimately have "100 dvd y" by (rule dvd_trans [rotated])
  then show ?thesis by (simp add: dvd_eq_mod_eq_0)
qed

lemma dvd_100_4: "y mod 100 = 0 \<Longrightarrow> y mod 4 = 0" for y :: int
proof -
  assume "y mod 100 = 0"
  then have "100 dvd y" by (simp add: dvd_eq_mod_eq_0)
  moreover have "(4::int) dvd 100" by simp
  ultimately have "4 dvd y" by (rule dvd_trans [rotated])
  then show ?thesis by (simp add: dvd_eq_mod_eq_0)
qed

lemma DayFromYear_Suc: "DayFromYear (y + 1) = DayFromYear y + (if InLeapYear y then 366 else 365)"
proof -
  have s4: "(y - 1968) div 4 = (y - 1969) div 4 + (if y mod 4 = 0 then 1 else 0)"
    using div_step [of 4 "y - 1969"] mod_shift [of y 4 492] by simp
  have s100: "(y - 1900) div 100 = (y - 1901) div 100 + (if y mod 100 = 0 then 1 else 0)"
    using div_step [of 100 "y - 1901"] mod_shift [of y 100 19] by simp
  have s400: "(y - 1600) div 400 = (y - 1601) div 400 + (if y mod 400 = 0 then 1 else 0)"
    using div_step [of 400 "y - 1601"] mod_shift [of y 400 4] by simp
  have expand: "DayFromYear (y + 1) =
      365 * (y - 1969) + (y - 1968) div 4 - (y - 1900) div 100 + (y - 1600) div 400"
    by (simp add: DayFromYear_def)
  show ?thesis
  proof (cases "y mod 4 = 0")
    case False
    with dvd_100_4 [of y] have h: "y mod 100 \<noteq> 0" by auto
    with dvd_400_100 [of y] have "y mod 400 \<noteq> 0" by auto
    note h this
    with False show ?thesis
      by (simp add: expand s4 s100 s400 InLeapYear_def) (simp add: DayFromYear_def)
  next
    case four: True
    show ?thesis
    proof (cases "y mod 100 = 0")
      case False
      with dvd_400_100 [of y] have "y mod 400 \<noteq> 0" by auto
      with False four show ?thesis
        by (simp add: expand s4 s100 s400 InLeapYear_def) (simp add: DayFromYear_def)
    next
      case hundred: True
      show ?thesis
      proof (cases "y mod 400 = 0")
        case True
        with hundred four show ?thesis
          by (simp add: expand s4 s100 s400 InLeapYear_def) (simp add: DayFromYear_def)
      next
        case False
        with hundred four show ?thesis
          by (simp add: expand s4 s100 s400 InLeapYear_def) (simp add: DayFromYear_def)
      qed
    qed
  qed
qed


lemma month_step:
  assumes "1 \<le> m" "m < 12"
  shows "DaysBeforeMonth y (m + 1) = DaysBeforeMonth y m + DaysInMonth y m"
proof -
  from assms have "m = 1 \<or> m = 2 \<or> m = 3 \<or> m = 4 \<or> m = 5 \<or> m = 6 \<or> m = 7 \<or> m = 8 \<or>
      m = 9 \<or> m = 10 \<or> m = 11"
    by arith
  then show ?thesis
    by (elim disjE) (simp_all add: DaysBeforeMonth_def DaysInMonth_def)
qed

lemma year_end:
  "DaysBeforeMonth y 12 + DaysInMonth y 12 = (if InLeapYear y then 366 else 365)"
  by (simp add: DaysBeforeMonth_def DaysInMonth_def)

lemma MakeDay_nextDay:
  assumes "valid_date d"
  shows "MakeDay (nextDay d) = MakeDay d + 1"
proof -
  from assms have m: "1 \<le> month d" "month d \<le> 12"
    and dd: "day d \<le> DaysInMonth (year d) (month d)"
    by (simp_all add: valid_date_def)
  show ?thesis
  proof (cases "day d < DaysInMonth (year d) (month d)")
    case True
    then show ?thesis by (simp add: nextDay_def MakeDay_def)
  next
    case month_end: False
    with dd have eq: "day d = DaysInMonth (year d) (month d)" by simp
    show ?thesis
    proof (cases "month d < 12")
      case True
      with month_end m eq show ?thesis
        by (simp add: nextDay_def MakeDay_def month_step)
    next
      case False
      with m have "month d = 12" by simp
      with month_end eq year_end [of "year d"] show ?thesis
        by (simp add: nextDay_def MakeDay_def DayFromYear_Suc DaysBeforeMonth_def)
    qed
  qed
qed

lemma daysBetween_nextDay: "valid_date d \<Longrightarrow> daysBetween d (nextDay d) = 1"
  by (simp add: daysBetween_def MakeDay_nextDay)

lemma valid_date_nextDay: "valid_date d \<Longrightarrow> valid_date (nextDay d)"
  unfolding valid_date_def nextDay_def
  by (auto simp: DaysInMonth_def split: if_splits)

lemma DayFromYear_mono:
  assumes "y1 \<le> y2"
  shows "DayFromYear y1 \<le> DayFromYear y2"
  using assms
proof (induction y2 rule: int_ge_induct)
  case base
  show ?case by simp
next
  case (step i)
  then show ?case by (simp add: DayFromYear_Suc)
qed

lemma DaysInMonth_pos: "28 \<le> DaysInMonth y m"
  by (simp add: DaysInMonth_def)

lemma DaysBeforeMonth_mono:
  assumes "1 \<le> a" "a \<le> b" "b \<le> 12"
  shows "DaysBeforeMonth y a \<le> DaysBeforeMonth y b"
  using assms(2,1,3)
proof (induction b rule: int_ge_induct)
  case base
  show ?case by simp
next
  case (step i)
  then have "DaysBeforeMonth y (i + 1) = DaysBeforeMonth y i + DaysInMonth y i"
    by (simp add: month_step)
  with step DaysInMonth_pos [of y i] show ?case by simp
qed

lemma year_length:
  assumes "1 \<le> m" "m \<le> 12"
  shows "DaysBeforeMonth y m + DaysInMonth y m \<le> DayFromYear (y + 1) - DayFromYear y"
proof (cases "m = 12")
  case True
  then show ?thesis by (simp add: year_end DayFromYear_Suc)
next
  case False
  with assms have lt: "m < 12" by simp
  with assms have "DaysBeforeMonth y m + DaysInMonth y m = DaysBeforeMonth y (m + 1)"
    by (simp add: month_step)
  also have "\<dots> \<le> DaysBeforeMonth y 12"
    using assms lt by (intro DaysBeforeMonth_mono) simp_all
  also have "\<dots> \<le> DayFromYear (y + 1) - DayFromYear y"
    using year_end [of y] DaysInMonth_pos [of y 12] by (simp add: DayFromYear_Suc)
  finally show ?thesis .
qed

lemma MakeDay_bounds:
  assumes "valid_date d"
  shows "DayFromYear (year d) \<le> MakeDay d" and "MakeDay d < DayFromYear (year d + 1)"
proof -
  from assms have m: "1 \<le> month d" "month d \<le> 12" and dd: "1 \<le> day d"
    "day d \<le> DaysInMonth (year d) (month d)"
    by (simp_all add: valid_date_def)
  have "0 \<le> DaysBeforeMonth (year d) (month d)"
    using DaysBeforeMonth_mono [of 1 "month d" "year d"] m by (simp add: DaysBeforeMonth_def)
  with dd show "DayFromYear (year d) \<le> MakeDay d" by (simp add: MakeDay_def)
  from year_length [OF m, of "year d"] dd
  show "MakeDay d < DayFromYear (year d + 1)" by (simp add: MakeDay_def)
qed

lemma MakeDay_year_less:
  assumes "valid_date d1" "valid_date d2" "year d1 < year d2"
  shows "MakeDay d1 < MakeDay d2"
proof -
  have "MakeDay d1 < DayFromYear (year d1 + 1)" by (rule MakeDay_bounds [OF assms(1)])
  also have "\<dots> \<le> DayFromYear (year d2)" using assms(3) by (intro DayFromYear_mono) simp
  also have "\<dots> \<le> MakeDay d2" by (rule MakeDay_bounds [OF assms(2)])
  finally show ?thesis .
qed

lemma MakeDay_month_less:
  assumes "valid_date d1" "valid_date d2" "year d1 = year d2" "month d1 < month d2"
  shows "MakeDay d1 < MakeDay d2"
proof -
  from assms have m1: "1 \<le> month d1" "month d1 < 12" and m2: "month d2 \<le> 12"
    and dd1: "day d1 \<le> DaysInMonth (year d1) (month d1)" and dd2: "1 \<le> day d2"
    by (simp_all add: valid_date_def)
  have "DaysBeforeMonth (year d1) (month d1) + day d1
      \<le> DaysBeforeMonth (year d1) (month d1 + 1)"
    using m1 dd1 by (simp add: month_step)
  also have "\<dots> \<le> DaysBeforeMonth (year d1) (month d2)"
    using m1 m2 assms(4) by (intro DaysBeforeMonth_mono) simp_all
  finally show ?thesis using dd2 assms(3) by (simp add: MakeDay_def)
qed

lemma MakeDay_inj:
  assumes "valid_date d1" "valid_date d2" "MakeDay d1 = MakeDay d2"
  shows "d1 = d2"
proof -
  have y: "year d1 = year d2"
    using MakeDay_year_less [OF assms(1,2)] MakeDay_year_less [OF assms(2,1)] assms(3)
    by (cases "year d1" "year d2" rule: linorder_cases) simp_all
  have m: "month d1 = month d2"
    using MakeDay_month_less [OF assms(1,2)] MakeDay_month_less [OF assms(2,1)] assms(3) y
    by (cases "month d1" "month d2" rule: linorder_cases) simp_all
  from assms(3) y m have "day d1 = day d2" by (simp add: MakeDay_def)
  with y m show ?thesis by simp
qed

lemma daysBetween_one_iff:
  assumes "valid_date l" "valid_date td"
  shows "daysBetween l td = 1 \<longleftrightarrow> td = nextDay l"
proof
  assume "daysBetween l td = 1"
  then have "MakeDay td = MakeDay (nextDay l)"
    using assms(1) by (simp add: daysBetween_def MakeDay_nextDay)
  with assms show "td = nextDay l"
    by (intro MakeDay_inj valid_date_nextDay)
next
  assume "td = nextDay l"
  with assms(1) show "daysBetween l td = 1" by (simp add: daysBetween_nextDay)
qed

section \<open>The calculation, case by case\<close>

lemma isConsecutiveDay_iff: "isConsecutiveDay (Some l) t \<longleftrightarrow> MakeDay t - MakeDay l = 1"
  unfolding isConsecutiveDay_def getTime_def msPerDay_def by simp arith

lemma streak_bonus_first:
  "last_message_date p = None \<Longrightarrow> streak_bonus p t = (1, 1)"
  by (simp add: streak_bonus_def isNewDay_def isConsecutiveDay_def)

lemma streak_bonus_same_day:
  "last_message_date p = Some t \<Longrightarrow> streak_bonus p t = (1, daily_streak p)"
  by (simp add: streak_bonus_def isNewDay_def)

lemma streak_bonus_consecutive:
  assumes "last_message_date p = Some l" "MakeDay t - MakeDay l = 1"
  shows "streak_bonus p t = (6, daily_streak p + 1)"
proof -
  from assms(2) have "l \<noteq> t" by auto
  with assms show ?thesis
    by (simp add: streak_bonus_def isNewDay_def isConsecutiveDay_iff)
qed

lemma streak_bonus_broken:
  assumes "last_message_date p = Some l" "l \<noteq> t" "MakeDay t - MakeDay l \<noteq> 1"
  shows "streak_bonus p t = (1, 1)"
  using assms by (simp add: streak_bonus_def isNewDay_def isConsecutiveDay_iff)

lemma ask_gemini_frame:
  assumes "ask_gemini e b ms w = (x, w1)"
  shows "profiles w1 = profiles w" "reward_transactions w1 = reward_transactions w"
    "messages_table w1 = messages_table w" "conversations w1 = conversations w"
  using assms
  by (auto simp: ask_gemini_def Let_def split: option.splits if_splits gemini_outcome.splits list.splits)

lemma ask_gemini_calls:
  assumes "ask_gemini e b ms w = (Inr y, w1)"
  shows "gemini_calls w1 = gemini_calls w @ [geminiMessages b ms]"
  using assms
  by (auto simp: ask_gemini_def Let_def split: option.splits if_splits gemini_outcome.splits list.splits)

lemma store_messages_frame:
  "profiles (store_messages u ms cid ai tok rt w) = profiles w"
  "reward_transactions (store_messages u ms cid ai tok rt w) = reward_transactions w"
  "gemini_calls (store_messages u ms cid ai tok rt w) = gemini_calls w"
  by (simp_all add: store_messages_def Let_def split: option.splits)

lemma update_profile_frame:
  "reward_transactions (update_profile e u p b w) = reward_transactions w"
  "gemini_calls (update_profile e u p b w) = gemini_calls w"
  "profiles (update_profile e u p b w) =
     (if updateError e then profiles w else (profiles w)(u \<mapsto> updated_profile p (today e) b))"
  by (simp_all add: update_profile_def)

lemma record_transaction_frame:
  "profiles (record_transaction e u p b w) = profiles w"
  "gemini_calls (record_transaction e u p b w) = gemini_calls w"
  "reward_transactions (record_transaction e u p b w) =
     reward_transactions w @
       (if transactionError e then []
        else case ledger_entry u p (today e) b of None \<Rightarrow> [] | Some t \<Rightarrow> [t])"
  by (simp_all add: record_transaction_def split: option.splits)

lemma reward_and_store_result:
  assumes "reward_and_store e u p ms cid b ai tok rt w = (r, w')"
  shows "pointsEarned r = fst (streak_bonus p (today e))"
    "newStreak r = snd (streak_bonus p (today e))"
    "totalPoints r = reward_points p + pointChange (fst (streak_bonus p (today e))) b"
    "pointsSpent r = (if b then 10 else 0)"
    "profiles w' =
       (if updateError e then profiles w else (profiles w)(u \<mapsto> updated_profile p (today e) b))"
    "reward_transactions w' =
       reward_transactions w @
         (if transactionError e then []
          else case ledger_entry u p (today e) b of None \<Rightarrow> [] | Some t \<Rightarrow> [t])"
    "gemini_calls w' = gemini_calls w"
  using assms
  by (auto simp: reward_and_store_def Let_def store_messages_frame update_profile_frame
      record_transaction_frame split: prod.splits)

lemma interaction_cases:
  assumes "interaction req e w u p b r w'"
  obtains ms cid ai tok rt w1 where
    "req_method req \<noteq> ''OPTIONS''"
    "parse_and_auth req e = Inr (ms, cid, b, u)"
    "fetch_profile e w u = Inr p"
    "\<not> (b \<and> reward_points p < 10)"
    "ask_gemini e b ms w = (Inr (ai, tok, rt), w1)"
    "reward_and_store e u p ms cid b ai tok rt w1 = (r, w')"
  using assms
  by (auto simp: interaction_def serve_def chat_def fetch_profile_def
      split: sum.splits prod.splits if_splits option.splits)


lemma interaction_result:
  assumes "interaction req e w u p b r w'"
  shows "\<not> (b \<and> reward_points p < 10)"
    and "pointsEarned r = fst (streak_bonus p (today e))"
    and "newStreak r = snd (streak_bonus p (today e))"
    and "totalPoints r = reward_points p + pointChange (fst (streak_bonus p (today e))) b"
    and "pointsSpent r = (if b then 10 else 0)"
    and "profiles w' =
       (if updateError e then profiles w else (profiles w)(u \<mapsto> updated_profile p (today e) b))"
    and "reward_transactions w' =
       reward_transactions w @
         (if transactionError e then []
          else case ledger_entry u p (today e) b of None \<Rightarrow> [] | Some t \<Rightarrow> [t])"
proof -
  from assms obtain ms cid ai tok rt w1 where
    chk: "\<not> (b \<and> reward_points p < 10)"
    and ask: "ask_gemini e b ms w = (Inr (ai, tok, rt), w1)"
    and fin: "reward_and_store e u p ms cid b ai tok rt w1 = (r, w')"
    by (rule interaction_cases)
  show "\<not> (b \<and> reward_points p < 10)" by (rule chk)
  show "pointsEarned r = fst (streak_bonus p (today e))"
    and "newStreak r = snd (streak_bonus p (today e))"
    and "totalPoints r = reward_points p + pointChange (fst (streak_bonus p (today e))) b"
    and "pointsSpent r = (if b then 10 else 0)"
    by (rule reward_and_store_result [OF fin])+
  show "profiles w' =
       (if updateError e then profiles w else (profiles w)(u \<mapsto> updated_profile p (today e) b))"
    using reward_and_store_result(5) [OF fin] ask_gemini_frame(1) [OF ask] by simp
  show "reward_transactions w' =
       reward_transactions w @
         (if transactionError e then []
          else case ledger_entry u p (today e) b of None \<Rightarrow> [] | Some t \<Rightarrow> [t])"
    using reward_and_store_result(6) [OF fin] ask_gemini_frame(2) [OF ask] by simp
qed

section \<open>What a request can do to the profiles\<close>

lemma ask_gemini_error:
  assumes "ask_gemini e b ms w = (Inl err, w1)"
  shows "err \<noteq> InsufficientPoints"
  using assms
  by (auto simp: ask_gemini_def Let_def
      split: option.splits if_splits gemini_outcome.splits list.splits)

lemma fetch_profile_Inr: "fetch_profile e w u = Inr p \<Longrightarrow> profiles w u = Some p"
  by (simp add: fetch_profile_def split: if_splits option.splits)

lemma reaches_check_cases:
  assumes "reaches_check req e w u p b"
  obtains ms cid where "req_method req \<noteq> ''OPTIONS''"
    "parse_and_auth req e = Inr (ms, cid, b, u)" "fetch_profile e w u = Inr p"
  using assms by (auto simp: reaches_check_def split: sum.splits)

lemma reaches_check_accepted:
  assumes "reaches_check req e w u p b" and "\<not> (b \<and> reward_points p < 10)"
  shows "accepted req e w u p b"
proof -
  from assms(1) obtain ms cid where m: "req_method req \<noteq> ''OPTIONS''"
    and pa: "parse_and_auth req e = Inr (ms, cid, b, u)"
    and fp: "fetch_profile e w u = Inr p"
    by (rule reaches_check_cases)
  obtain x w1 where ask: "ask_gemini e b ms w = (x, w1)" by (cases "ask_gemini e b ms w")
  have "fst (serve req e w) \<noteq> Error500 InsufficientPoints"
  proof (cases x)
    case (Inl err)
    with ask have "err \<noteq> InsufficientPoints" by (auto dest: ask_gemini_error)
    with m pa fp assms(2) ask Inl show ?thesis by (simp add: serve_def chat_def)
  next
    case (Inr y)
    with m pa fp assms(2) ask show ?thesis
      by (simp add: serve_def chat_def split: prod.splits)
  qed
  with assms(1) show ?thesis by (simp add: accepted_def)
qed

lemma reaches_check_interaction:
  assumes "reaches_check req e w u p b" and "serve req e w = (Ok200 r, w')"
  shows "interaction req e w u p b r w'"
  using assms
  by (auto simp: reaches_check_def interaction_def dest: fetch_profile_Inr split: sum.splits)

lemma serve_profiles:
  "profiles (snd (serve req e w)) = profiles w \<or>
   (\<exists>u p b. profiles w u = Some p \<and>
      profiles (snd (serve req e w)) = (profiles w)(u \<mapsto> updated_profile p (today e) b))"
proof (cases "serve req e w")
  case (Pair out w')
  show ?thesis
  proof (cases out)
    case CorsPreflight
    with Pair have "w' = w"
      by (auto simp: serve_def split: if_splits prod.splits sum.splits)
    with Pair show ?thesis by simp
  next
    case (Ok200 r)
    with Pair have "\<exists>u p b. interaction req e w u p b r w'"
      by (auto simp: interaction_def serve_def chat_def fetch_profile_def
          split: if_splits prod.splits sum.splits option.splits)
    then obtain u p b where int: "interaction req e w u p b r w'" by blast
    then have "profiles w u = Some p" by (simp add: interaction_def)
    with interaction_result(6) [OF int] Pair show ?thesis by auto
  next
    case (Error500 err)
    with Pair have "w' = w \<or> (\<exists>b ms x. ask_gemini e b ms w = (x, w'))"
      by (auto simp: serve_def chat_def split: if_splits prod.splits sum.splits)
    then have "profiles w' = profiles w" by (auto dest: ask_gemini_frame(1))
    with Pair show ?thesis by simp
  qed
qed

lemma updated_profile_same_day:
  assumes "last_message_date p = Some d"
  shows "daily_streak (updated_profile p d b) = daily_streak p"
    and "last_message_date (updated_profile p d b) = Some d"
  using assms by (simp_all add: updated_profile_def streak_bonus_same_day)

lemma serve_same_day:
  assumes "profiles w u = Some p" and "last_message_date p = Some d" and "today e = d"
  shows "\<exists>p'. profiles (snd (serve req e w)) u = Some p' \<and>
           daily_streak p' = daily_streak p \<and> last_message_date p' = Some d"
proof -
  from serve_profiles [of req e w] show ?thesis
  proof
    assume "profiles (snd (serve req e w)) = profiles w"
    with assms show ?thesis by simp
  next
    assume "\<exists>u p b. profiles w u = Some p \<and>
      profiles (snd (serve req e w)) = (profiles w)(u \<mapsto> updated_profile p (today e) b)"
    then obtain v q b where q: "profiles w v = Some q"
      and upd: "profiles (snd (serve req e w)) = (profiles w)(v \<mapsto> updated_profile q (today e) b)"
      by blast
    show ?thesis
    proof (cases "v = u")
      case True
      with q assms have "q = p" by simp
      with True upd assms show ?thesis by (simp add: updated_profile_same_day)
    next
      case False
      with upd assms show ?thesis by simp
    qed
  qed
qed

lemma serve_all_same_day:
  assumes "profiles w u = Some p" and "last_message_date p = Some d"
    and "\<forall>(req, e) \<in> set rs. today e = d"
  shows "\<exists>p'. profiles (snd (serve_all rs w)) u = Some p' \<and>
           daily_streak p' = daily_streak p \<and> last_message_date p' = Some d"
  using assms
proof (induction rs arbitrary: w p)
  case Nil
  then show ?case by simp
next
  case (Cons x rs)
  obtain req e where x: "x = (req, e)" by (cases x)
  with Cons.prems have td: "today e = d" and rest: "\<forall>(req, e) \<in> set rs. today e = d"
    by simp_all
  from serve_same_day [OF Cons.prems(1,2) td, of req]
  obtain p1 where p1: "profiles (snd (serve req e w)) u = Some p1"
    and s1: "daily_streak p1 = daily_streak p" and l1: "last_message_date p1 = Some d"
    by blast
  from Cons.IH [OF p1 l1 rest] s1 x show ?case
    by (auto split: prod.splits)
qed

lemma earned_cases:
  "fst (streak_bonus p d) = 1 \<or> fst (streak_bonus p d) = 6"
  by (simp add: streak_bonus_def Let_def)

lemma earned_plain_day:
  "\<not> isConsecutiveDay (last_message_date p) d \<Longrightarrow> fst (streak_bonus p d) = 1"
  by (simp add: streak_bonus_def Let_def)

section \<open>The example run\<close>

lemma ex_profile_sel [simp]:
  "reward_points (ex_profile a b c d) = a" "daily_streak (ex_profile a b c d) = b"
  "last_message_date (ex_profile a b c d) = c" "total_messages (ex_profile a b c d) = d"
  by (simp_all add: ex_profile_def)

lemma ex_env_sel [simp]:
  "today (ex_env d) = d" "updateError (ex_env d) = False" "transactionError (ex_env d) = False"
  by (simp_all add: ex_env_def)

lemma ex_reply_sel [simp]:
  "pointsEarned (ex_reply a b c d) = a" "pointsSpent (ex_reply a b c d) = b"
  "newStreak (ex_reply a b c d) = c" "totalPoints (ex_reply a b c d) = d"
  by (simp_all add: ex_reply_def)

lemma ex_world_sel [simp]:
  "profiles (ex_world p) ''user-1'' = Some p" "reward_transactions (ex_world p) = []"
  by (simp_all add: ex_world_def)

lemma ex_after_sel [simp]:
  "profiles (ex_after b p ts) ''user-1'' = Some p" "reward_transactions (ex_after b p ts) = ts"
  by (simp_all add: ex_after_def)

lemma ex_parse:
  "parse_and_auth (ex_request b) (ex_env d) = Inr (ex_messages, None, b, ''user-1'')"
  by (simp add: parse_and_auth_def ex_request_def ex_env_def ex_messages_def)

lemma ex_fetch: "fetch_profile (ex_env d) (ex_world p) ''user-1'' = Inr p"
  by (simp add: fetch_profile_def ex_env_def ex_world_def)

lemma ex_ask:
  "ask_gemini (ex_env d) b ex_messages (ex_world p) =
     (Inr (''Hi there'', 12, 350), (ex_world p)\<lparr>gemini_calls := [geminiMessages b ex_messages]\<rparr>)"
  by (simp add: ask_gemini_def ex_env_def ex_world_def)

lemma ex_serve:
  assumes "\<not> (b \<and> reward_points p < 10)"
  shows "serve (ex_request b) (ex_env d) (ex_world p) =
     (Ok200 (ex_reply (fst (streak_bonus p d)) (if b then 10 else 0) (snd (streak_bonus p d))
               (reward_points p + pointChange (fst (streak_bonus p d)) b)),
      ex_after b (updated_profile p d b)
        (case ledger_entry ''user-1'' p d b of None \<Rightarrow> [] | Some t \<Rightarrow> [t]))"
proof -
  have "reward_and_store (ex_env d) ''user-1'' p ex_messages None b ''Hi there'' 12 350
          ((ex_world p)\<lparr>gemini_calls := [geminiMessages b ex_messages]\<rparr>) =
        (ex_reply (fst (streak_bonus p d)) (if b then 10 else 0) (snd (streak_bonus p d))
               (reward_points p + pointChange (fst (streak_bonus p d)) b),
         ex_after b (updated_profile p d b)
           (case ledger_entry ''user-1'' p d b of None \<Rightarrow> [] | Some t \<Rightarrow> [t]))"
    by (simp add: reward_and_store_def update_profile_def record_transaction_def
        store_messages_def ex_env_def ex_world_def ex_reply_def ex_after_def
        split: prod.splits option.splits)
  moreover have "req_method (ex_request b) \<noteq> ''OPTIONS''"
    by (simp add: ex_request_def)
  ultimately show ?thesis
    using assms by (simp add: serve_def chat_def ex_parse ex_fetch ex_ask)
qed

lemma march_gap: "MakeDay march_10 - MakeDay march_9 = 1" "MakeDay march_20 - MakeDay march_9 = 11"
  by (simp_all add: MakeDay_def DayFromYear_def DaysBeforeMonth_def InLeapYear_def
      march_9_def march_10_def march_20_def)

lemma march_distinct: "march_9 \<noteq> march_20" "march_9 \<noteq> march_10"
  by (simp_all add: march_9_def march_10_def march_20_def)

lemma march_next: "valid_date march_9" "nextDay march_9 = march_10"
  by (simp_all add: valid_date_def nextDay_def DaysInMonth_def march_9_def march_10_def)

lemma ex_interaction:
  assumes "\<not> (b \<and> reward_points p < 10)"
    and "streak_bonus p d = (earned, streak)"
    and "updated_profile p d b = p'"
    and "ledger_entry ''user-1'' p d b = Some t"
  shows "interaction (ex_request b) (ex_env d) (ex_world p) ''user-1'' p b
           (ex_reply earned (if b then 10 else 0) streak (reward_points p + pointChange earned b))
           (ex_after b p' [t])"
  using assms ex_serve [of b p d]
  by (simp add: interaction_def ex_parse)

lemma ex_run_first:
  "interaction (ex_request False) (ex_env march_10) (ex_world (ex_profile 0 0 None 0)) ''user-1''
     (ex_profile 0 0 None 0) False (ex_reply 1 0 1 1)
     (ex_after False (ex_profile 1 1 (Some march_10) 1) [message_entry])"
proof -
  have sb: "streak_bonus (ex_profile 0 0 None 0) march_10 = (1, 1)"
    by (simp add: streak_bonus_first ex_profile_def)
  have "interaction (ex_request False) (ex_env march_10) (ex_world (ex_profile 0 0 None 0))
      ''user-1'' (ex_profile 0 0 None 0) False
      (ex_reply 1 (if False then 10 else 0) 1
         (reward_points (ex_profile 0 0 None 0) + pointChange 1 False))
      (ex_after False (ex_profile 1 1 (Some march_10) 1) [message_entry])"
    by (rule ex_interaction [OF _ sb])
      (simp_all add: updated_profile_def ledger_entry_def sb [unfolded ex_profile_def]
        pointChange_def ex_profile_def
        message_entry_def)
  then show ?thesis by (simp add: pointChange_def ex_profile_def)
qed

lemma ex_run_streak:
  "interaction (ex_request False) (ex_env march_10)
     (ex_world (ex_profile 20 3 (Some march_9) 10)) ''user-1''
     (ex_profile 20 3 (Some march_9) 10) False (ex_reply 6 0 4 26)
     (ex_after False (ex_profile 26 4 (Some march_10) 11) [streak_entry])"
proof -
  have sb: "streak_bonus (ex_profile 20 3 (Some march_9) 10) march_10 = (6, 4)"
    using streak_bonus_consecutive [of "ex_profile 20 3 (Some march_9) 10" march_9 march_10]
    by (simp add: march_gap ex_profile_def)
  have ts: "toString 4 = ''4''"
    by (simp add: toString_def decimal.simps digit_def)
  have "interaction (ex_request False) (ex_env march_10)
      (ex_world (ex_profile 20 3 (Some march_9) 10)) ''user-1''
      (ex_profile 20 3 (Some march_9) 10) False
      (ex_reply 6 (if False then 10 else 0) 4
         (reward_points (ex_profile 20 3 (Some march_9) 10) + pointChange 6 False))
      (ex_after False (ex_profile 26 4 (Some march_10) 11) [streak_entry])"
    by (rule ex_interaction [OF _ sb])
      (simp_all add: updated_profile_def ledger_entry_def sb [unfolded ex_profile_def] ts
        pointChange_def ex_profile_def
        streak_entry_def)
  then show ?thesis by (simp add: pointChange_def ex_profile_def)
qed

lemma ex_run_broken:
  "interaction (ex_request False) (ex_env march_20)
     (ex_world (ex_profile 20 3 (Some march_9) 10)) ''user-1''
     (ex_profile 20 3 (Some march_9) 10) False (ex_reply 1 0 1 21)
     (ex_after False (ex_profile 21 1 (Some march_20) 11) [message_entry])"
proof -
  have ne: "march_9 \<noteq> march_20" by (simp add: march_9_def march_20_def)
  have sb: "streak_bonus (ex_profile 20 3 (Some march_9) 10) march_20 = (1, 1)"
    using streak_bonus_broken [of "ex_profile 20 3 (Some march_9) 10" march_9 march_20] ne
    by (simp add: march_gap ex_profile_def)
  have "interaction (ex_request False) (ex_env march_20)
      (ex_world (ex_profile 20 3 (Some march_9) 10)) ''user-1''
      (ex_profile 20 3 (Some march_9) 10) False
      (ex_reply 1 (if False then 10 else 0) 1
         (reward_points (ex_profile 20 3 (Some march_9) 10) + pointChange 1 False))
      (ex_after False (ex_profile 21 1 (Some march_20) 11) [message_entry])"
    by (rule ex_interaction [OF _ sb])
      (simp_all add: updated_profile_def ledger_entry_def sb [unfolded ex_profile_def]
        pointChange_def ex_profile_def
        message_entry_def)
  then show ?thesis by (simp add: pointChange_def ex_profile_def)
qed

lemma ex_run_same_day:
  "interaction (ex_request False) (ex_env march_10)
     (ex_world (ex_profile 20 5 (Some march_10) 10)) ''user-1''
     (ex_profile 20 5 (Some march_10) 10) False (ex_reply 1 0 5 21)
     (ex_after False (ex_profile 21 5 (Some march_10) 11) [message_entry])"
proof -
  have sb: "streak_bonus (ex_profile 20 5 (Some march_10) 10) march_10 = (1, 5)"
    using streak_bonus_same_day [of "ex_profile 20 5 (Some march_10) 10" march_10]
    by (simp add: ex_profile_def)
  have "interaction (ex_request False) (ex_env march_10)
      (ex_world (ex_profile 20 5 (Some march_10) 10)) ''user-1''
      (ex_profile 20 5 (Some march_10) 10) False
      (ex_reply 1 (if False then 10 else 0) 5
         (reward_points (ex_profile 20 5 (Some march_10) 10) + pointChange 1 False))
      (ex_after False (ex_profile 21 5 (Some march_10) 11) [message_entry])"
    by (rule ex_interaction [OF _ sb])
      (simp_all add: updated_profile_def ledger_entry_def sb [unfolded ex_profile_def]
        pointChange_def ex_profile_def
        message_entry_def)
  then show ?thesis by (simp add: pointChange_def ex_profile_def)
qed

lemma ex_run_boost:
  "interaction (ex_request True) (ex_env march_10)
     (ex_world (ex_profile 10 5 (Some march_10) 10)) ''user-1''
     (ex_profile 10 5 (Some march_10) 10) True (ex_reply 1 10 5 1)
     (ex_after True (ex_profile 1 5 (Some march_10) 11) [boost_entry (- 9)])"
proof -
  have sb: "streak_bonus (ex_profile 10 5 (Some march_10) 10) march_10 = (1, 5)"
    using streak_bonus_same_day [of "ex_profile 10 5 (Some march_10) 10" march_10]
    by (simp add: ex_profile_def)
  have "interaction (ex_request True) (ex_env march_10)
      (ex_world (ex_profile 10 5 (Some march_10) 10)) ''user-1''
      (ex_profile 10 5 (Some march_10) 10) True
      (ex_reply 1 (if True then 10 else 0) 5
         (reward_points (ex_profile 10 5 (Some march_10) 10) + pointChange 1 True))
      (ex_after True (ex_profile 1 5 (Some march_10) 11) [boost_entry (- 9)])"
    by (rule ex_interaction [OF _ sb])
      (simp_all add: updated_profile_def ledger_entry_def sb [unfolded ex_profile_def]
        pointChange_def ex_profile_def
        boost_entry_def)
  then show ?thesis by (simp add: pointChange_def ex_profile_def)
qed

section \<open>The rejected boost\<close>

text \<open>
  C1. A request that asks for a boost, has passed authentication and whose profile was read
  with fewer than 10 reward points fails with the insufficient-points error, and the state
  after it is the state before it: no profile row, no ledger entry, no stored message has
  changed and no request has gone to the completion API.
\<close>

theorem boost_rejected_before_any_effect:
  assumes "req_method req \<noteq> ''OPTIONS''"
    and "parse_and_auth req e = Inr (ms, cid, True, u)"
    and "fetch_profile e w u = Inr p"
    and "reward_points p < 10"
  shows "serve req e w = (Error500 InsufficientPoints, w)"
  using assms by (simp add: serve_def chat_def)

theorem boost_rejected_witness:
  "req_method (ex_request True) \<noteq> ''OPTIONS'' \<and>
   parse_and_auth (ex_request True) (ex_env march_10) = Inr (ex_messages, None, True, ''user-1'') \<and>
   fetch_profile (ex_env march_10)
     (ex_world \<lparr>reward_points = 9, daily_streak = 3, last_message_date = Some march_9,
                total_messages = 10\<rparr>) ''user-1'' =
     Inr \<lparr>reward_points = 9, daily_streak = 3, last_message_date = Some march_9,
          total_messages = 10\<rparr> \<and>
   reward_points \<lparr>reward_points = 9, daily_streak = 3, last_message_date = Some march_9,
          total_messages = 10\<rparr> < 10 \<and>
   serve (ex_request True) (ex_env march_10)
     (ex_world \<lparr>reward_points = 9, daily_streak = 3, last_message_date = Some march_9,
                total_messages = 10\<rparr>) =
     (Error500 InsufficientPoints,
      ex_world \<lparr>reward_points = 9, daily_streak = 3, last_message_date = Some march_9,
                total_messages = 10\<rparr>)"
proof -
  let ?p = "\<lparr>reward_points = 9, daily_streak = 3, last_message_date = Some march_9,
             total_messages = 10\<rparr>"
  have h1: "req_method (ex_request True) \<noteq> ''OPTIONS''" by (simp add: ex_request_def)
  have h2: "parse_and_auth (ex_request True) (ex_env march_10) =
      Inr (ex_messages, None, True, ''user-1'')" by (rule ex_parse)
  have h3: "fetch_profile (ex_env march_10) (ex_world ?p) ''user-1'' = Inr ?p" by (rule ex_fetch)
  have h4: "reward_points ?p < 10" by simp
  from boost_rejected_before_any_effect [OF h1 h2 h3 h4] h1 h2 h3 h4 show ?thesis by simp
qed

section \<open>The consecutive-day test\<close>

text \<open>
  C3. For a present last message date and every today, both dates of the calendar, the
  handler's consecutive-day test holds exactly when today is the calendar day after the last
  message date; and calendar-date subtraction gives one day for exactly the same pairs of
  dates. The day after a date is taken from the calendar itself (the lengths of the months
  and the leap years), not from day numbers. The handler arrives at the test by subtracting
  the millisecond values of the two dates; both are UTC midnights.
\<close>

theorem isConsecutiveDay_next_calendar_day:
  assumes "valid_date l" and "valid_date td"
  shows "(isConsecutiveDay (Some l) td \<longleftrightarrow> td = nextDay l) \<and>
         (spec_isConsecutiveDay (Some l) td \<longleftrightarrow> td = nextDay l)"
proof -
  have cal: "daysBetween l td = 1 \<longleftrightarrow> td = nextDay l"
    by (rule daysBetween_one_iff [OF assms])
  have "isConsecutiveDay (Some l) td \<longleftrightarrow> daysBetween l td = 1"
    by (simp add: isConsecutiveDay_iff daysBetween_def)
  moreover have "spec_isConsecutiveDay (Some l) td \<longleftrightarrow> daysBetween l td = 1"
    by (simp add: spec_isConsecutiveDay_def)
  ultimately show ?thesis using cal by simp
qed

theorem isConsecutiveDay_next_calendar_day_witness:
  "valid_date march_9 \<and> valid_date march_10 \<and> march_10 = nextDay march_9 \<and>
   isConsecutiveDay (Some march_9) march_10 \<and>
   valid_date feb_28 \<and> valid_date feb_29 \<and> feb_29 = nextDay feb_28 \<and>
   isConsecutiveDay (Some feb_28) feb_29 \<and>
   valid_date dec_31 \<and> valid_date jan_1 \<and> jan_1 = nextDay dec_31 \<and>
   isConsecutiveDay (Some dec_31) jan_1 \<and>
   valid_date march_20 \<and> march_20 \<noteq> nextDay march_9 \<and>
   \<not> isConsecutiveDay (Some march_9) march_20 \<and>
   march_9 \<noteq> nextDay march_9 \<and> \<not> isConsecutiveDay (Some march_9) march_9"
proof -
  have v: "valid_date march_9" "valid_date march_10" "valid_date march_20"
    "valid_date feb_28" "valid_date feb_29" "valid_date dec_31" "valid_date jan_1"
    by (simp_all add: valid_date_def DaysInMonth_def InLeapYear_def march_9_def march_10_def
        march_20_def feb_28_def feb_29_def dec_31_def jan_1_def)
  have n: "march_10 = nextDay march_9" "feb_29 = nextDay feb_28" "jan_1 = nextDay dec_31"
    "march_20 \<noteq> nextDay march_9" "march_9 \<noteq> nextDay march_9"
    by (simp_all add: nextDay_def DaysInMonth_def InLeapYear_def march_9_def march_10_def
        march_20_def feb_28_def feb_29_def dec_31_def jan_1_def)
  from isConsecutiveDay_next_calendar_day [OF v(1) v(2)]
    isConsecutiveDay_next_calendar_day [OF v(4) v(5)]
    isConsecutiveDay_next_calendar_day [OF v(6) v(7)]
    isConsecutiveDay_next_calendar_day [OF v(1) v(3)]
    isConsecutiveDay_next_calendar_day [OF v(1) v(1)]
    v n
  show ?thesis by simp
qed

section \<open>Streak and points of one interaction\<close>

text \<open>
  C2. In a completed interaction: with no last message date the new streak is 1 and 1 point
  is earned; with a last message date exactly one calendar day before today the streak grows
  by 1 and 6 points are earned; with a gap of more than one day the streak is reset to 1 and
  1 point is earned. The streak of the reply is the streak written to the profile.
\<close>

theorem new_day_streak_and_points:
  assumes "interaction req e w u p b r w'"
  shows "(last_message_date p = None \<longrightarrow> newStreak r = 1 \<and> pointsEarned r = 1) \<and>
    (\<forall>l. last_message_date p = Some l \<and> daysBetween l (today e) = 1 \<longrightarrow>
       newStreak r = daily_streak p + 1 \<and> pointsEarned r = 6) \<and>
    (\<forall>l. last_message_date p = Some l \<and> daysBetween l (today e) > 1 \<longrightarrow>
       newStreak r = 1 \<and> pointsEarned r = 1) \<and>
    (\<not> updateError e \<longrightarrow> map_option daily_streak (profiles w' u) = Some (newStreak r))"
proof -
  note res = interaction_result [OF assms]
  have first: "last_message_date p = None \<longrightarrow> newStreak r = 1 \<and> pointsEarned r = 1"
    by (simp add: res streak_bonus_first)
  have next_day: "\<forall>l. last_message_date p = Some l \<and> daysBetween l (today e) = 1 \<longrightarrow>
       newStreak r = daily_streak p + 1 \<and> pointsEarned r = 6"
    by (simp add: res daysBetween_def streak_bonus_consecutive)
  have later: "\<forall>l. last_message_date p = Some l \<and> daysBetween l (today e) > 1 \<longrightarrow>
       newStreak r = 1 \<and> pointsEarned r = 1"
  proof (intro allI impI)
    fix l assume h: "last_message_date p = Some l \<and> daysBetween l (today e) > 1"
    then have "l \<noteq> today e" "MakeDay (today e) - MakeDay l \<noteq> 1"
      by (auto simp: daysBetween_def)
    with h show "newStreak r = 1 \<and> pointsEarned r = 1"
      by (simp add: res streak_bonus_broken)
  qed
  have stored: "\<not> updateError e \<longrightarrow>
      map_option daily_streak (profiles w' u) = Some (newStreak r)"
    by (simp add: res updated_profile_def split: prod.splits)
  from first next_day later stored show ?thesis by blast
qed

theorem new_day_streak_and_points_witness:
  "interaction (ex_request False) (ex_env march_10) (ex_world (ex_profile 0 0 None 0)) ''user-1''
     (ex_profile 0 0 None 0) False (ex_reply 1 0 1 1)
     (ex_after False (ex_profile 1 1 (Some march_10) 1) [message_entry]) \<and>
   last_message_date (ex_profile 0 0 None 0) = None \<and>
   newStreak (ex_reply 1 0 1 1) = 1 \<and> pointsEarned (ex_reply 1 0 1 1) = 1 \<and>
   interaction (ex_request False) (ex_env march_10)
     (ex_world (ex_profile 20 3 (Some march_9) 10)) ''user-1''
     (ex_profile 20 3 (Some march_9) 10) False (ex_reply 6 0 4 26)
     (ex_after False (ex_profile 26 4 (Some march_10) 11) [streak_entry]) \<and>
   daysBetween march_9 march_10 = 1 \<and>
   newStreak (ex_reply 6 0 4 26) = 3 + 1 \<and> pointsEarned (ex_reply 6 0 4 26) = 6 \<and>
   map_option daily_streak
     (profiles (ex_after False (ex_profile 26 4 (Some march_10) 11) [streak_entry]) ''user-1'') =
     Some 4 \<and>
   interaction (ex_request False) (ex_env march_20)
     (ex_world (ex_profile 20 3 (Some march_9) 10)) ''user-1''
     (ex_profile 20 3 (Some march_9) 10) False (ex_reply 1 0 1 21)
     (ex_after False (ex_profile 21 1 (Some march_20) 11) [message_entry]) \<and>
   daysBetween march_9 march_20 > 1 \<and>
   newStreak (ex_reply 1 0 1 21) = 1 \<and> pointsEarned (ex_reply 1 0 1 21) = 1"
  using new_day_streak_and_points [OF ex_run_first] new_day_streak_and_points [OF ex_run_streak]
    new_day_streak_and_points [OF ex_run_broken] ex_run_first ex_run_streak ex_run_broken
  by (simp add: daysBetween_def march_gap)

text \<open>
  C4, as amended. In a completed interaction the streak is reset to 1 when the last message
  date exists, is not today and is not exactly one calendar day before today; it is left as it
  was when the last message date is today; it grows by 1 when exactly one day has elapsed;
  and it is 1 after the first interaction ever.
\<close>

theorem streak_reset_unless_same_day:
  assumes "interaction req e w u p b r w'"
  shows "(\<forall>l. last_message_date p = Some l \<and> l \<noteq> today e \<and> daysBetween l (today e) \<noteq> 1 \<longrightarrow>
       newStreak r = 1) \<and>
    (last_message_date p = Some (today e) \<longrightarrow> newStreak r = daily_streak p) \<and>
    (\<forall>l. last_message_date p = Some l \<and> daysBetween l (today e) = 1 \<longrightarrow>
       newStreak r = daily_streak p + 1) \<and>
    (last_message_date p = None \<longrightarrow> newStreak r = 1) \<and>
    (\<not> updateError e \<longrightarrow> map_option daily_streak (profiles w' u) = Some (newStreak r))"
proof -
  note res = interaction_result [OF assms]
  have broken: "\<forall>l. last_message_date p = Some l \<and> l \<noteq> today e \<and>
      daysBetween l (today e) \<noteq> 1 \<longrightarrow> newStreak r = 1"
    by (simp add: res daysBetween_def streak_bonus_broken)
  have same: "last_message_date p = Some (today e) \<longrightarrow> newStreak r = daily_streak p"
    by (simp add: res streak_bonus_same_day)
  have next_day: "\<forall>l. last_message_date p = Some l \<and> daysBetween l (today e) = 1 \<longrightarrow>
       newStreak r = daily_streak p + 1"
    by (simp add: res daysBetween_def streak_bonus_consecutive)
  have first: "last_message_date p = None \<longrightarrow> newStreak r = 1"
    by (simp add: res streak_bonus_first)
  have stored: "\<not> updateError e \<longrightarrow>
      map_option daily_streak (profiles w' u) = Some (newStreak r)"
    by (simp add: res updated_profile_def split: prod.splits)
  from broken same next_day first stored show ?thesis by blast
qed

theorem streak_reset_unless_same_day_witness:
  "interaction (ex_request False) (ex_env march_20)
     (ex_world (ex_profile 20 3 (Some march_9) 10)) ''user-1''
     (ex_profile 20 3 (Some march_9) 10) False (ex_reply 1 0 1 21)
     (ex_after False (ex_profile 21 1 (Some march_20) 11) [message_entry]) \<and>
   march_9 \<noteq> march_20 \<and> daysBetween march_9 march_20 \<noteq> 1 \<and>
   newStreak (ex_reply 1 0 1 21) = 1 \<and>
   interaction (ex_request False) (ex_env march_10)
     (ex_world (ex_profile 20 5 (Some march_10) 10)) ''user-1''
     (ex_profile 20 5 (Some march_10) 10) False (ex_reply 1 0 5 21)
     (ex_after False (ex_profile 21 5 (Some march_10) 11) [message_entry]) \<and>
   newStreak (ex_reply 1 0 5 21) = 5 \<and>
   interaction (ex_request False) (ex_env march_10)
     (ex_world (ex_profile 20 3 (Some march_9) 10)) ''user-1''
     (ex_profile 20 3 (Some march_9) 10) False (ex_reply 6 0 4 26)
     (ex_after False (ex_profile 26 4 (Some march_10) 11) [streak_entry]) \<and>
   daysBetween march_9 march_10 = 1 \<and>
   newStreak (ex_reply 6 0 4 26) = 3 + 1 \<and>
   interaction (ex_request False) (ex_env march_10) (ex_world (ex_profile 0 0 None 0)) ''user-1''
     (ex_profile 0 0 None 0) False (ex_reply 1 0 1 1)
     (ex_after False (ex_profile 1 1 (Some march_10) 1) [message_entry]) \<and>
   newStreak (ex_reply 1 0 1 1) = 1"
  using streak_reset_unless_same_day [OF ex_run_broken]
    streak_reset_unless_same_day [OF ex_run_same_day]
    streak_reset_unless_same_day [OF ex_run_streak]
    streak_reset_unless_same_day [OF ex_run_first]
    ex_run_broken ex_run_same_day ex_run_streak ex_run_first
  by (simp add: daysBetween_def march_gap march_distinct)

text \<open>
  C4, as stated, fails when the last message date is today: the date exists and is not one
  calendar day before today, yet the streak of 5 is kept and not reset to 1.
\<close>

theorem same_day_streak_not_reset:
  "interaction (ex_request False) (ex_env march_10)
     (ex_world (ex_profile 20 5 (Some march_10) 10)) ''user-1''
     (ex_profile 20 5 (Some march_10) 10) False (ex_reply 1 0 5 21)
     (ex_after False (ex_profile 21 5 (Some march_10) 11) [message_entry]) \<and>
   last_message_date (ex_profile 20 5 (Some march_10) 10) = Some march_10 \<and>
   today (ex_env march_10) = march_10 \<and>
   daysBetween march_10 march_10 \<noteq> 1 \<and>
   newStreak (ex_reply 1 0 5 21) \<noteq> 1 \<and>
   map_option daily_streak
     (profiles (ex_after False (ex_profile 21 5 (Some march_10) 11) [message_entry]) ''user-1'')
     \<noteq> Some 1"
  using ex_run_same_day by (simp add: daysBetween_def)

section \<open>Repeated messages on one day\<close>

text \<open>
  C5. When the last message date of a profile is today, a completed interaction leaves the
  streak as it was and earns 1 point. Hence, however many requests are served on that day,
  and whatever their outcome, the streak and the last message date of the profile stay the
  same: only the points and the message count can differ.
\<close>

theorem same_day_repeat_keeps_streak:
  assumes "profiles w u = Some p" and "last_message_date p = Some d"
    and "\<forall>(req, e) \<in> set rs. today e = d"
  shows "(\<forall>req e b r w'. today e = d \<and> interaction req e w u p b r w' \<longrightarrow>
            newStreak r = daily_streak p \<and> pointsEarned r = 1) \<and>
         map_option daily_streak (profiles (snd (serve_all rs w)) u) = Some (daily_streak p) \<and>
         map_option last_message_date (profiles (snd (serve_all rs w)) u) = Some (Some d)"
proof -
  have one: "\<forall>req e b r w'. today e = d \<and> interaction req e w u p b r w' \<longrightarrow>
            newStreak r = daily_streak p \<and> pointsEarned r = 1"
  proof (intro allI impI)
    fix req e b r w'
    assume h: "today e = d \<and> interaction req e w u p b r w'"
    then have int: "interaction req e w u p b r w'" by simp
    from h assms(2) show "newStreak r = daily_streak p \<and> pointsEarned r = 1"
      by (simp add: interaction_result(2,3) [OF int] streak_bonus_same_day)
  qed
  from serve_all_same_day [OF assms] obtain p' where
    "profiles (snd (serve_all rs w)) u = Some p'" "daily_streak p' = daily_streak p"
    "last_message_date p' = Some d" by blast
  with one show ?thesis by simp
qed

theorem same_day_repeat_keeps_streak_witness:
  "profiles (ex_world (ex_profile 20 5 (Some march_10) 10)) ''user-1'' =
     Some (ex_profile 20 5 (Some march_10) 10) \<and>
   last_message_date (ex_profile 20 5 (Some march_10) 10) = Some march_10 \<and>
   today (ex_env march_10) = march_10 \<and>
   interaction (ex_request False) (ex_env march_10)
     (ex_world (ex_profile 20 5 (Some march_10) 10)) ''user-1''
     (ex_profile 20 5 (Some march_10) 10) False (ex_reply 1 0 5 21)
     (ex_after False (ex_profile 21 5 (Some march_10) 11) [message_entry]) \<and>
   newStreak (ex_reply 1 0 5 21) = 5 \<and> pointsEarned (ex_reply 1 0 5 21) = 1 \<and>
   map_option daily_streak
     (profiles (snd (serve_all [(ex_request False, ex_env march_10),
                                (ex_request True, ex_env march_10),
                                (ex_request False, ex_env march_10)]
                       (ex_world (ex_profile 20 5 (Some march_10) 10)))) ''user-1'') = Some 5 \<and>
   map_option last_message_date
     (profiles (snd (serve_all [(ex_request False, ex_env march_10),
                                (ex_request True, ex_env march_10),
                                (ex_request False, ex_env march_10)]
                       (ex_world (ex_profile 20 5 (Some march_10) 10)))) ''user-1'') =
     Some (Some march_10)"
proof -
  have h1: "profiles (ex_world (ex_profile 20 5 (Some march_10) 10)) ''user-1'' =
     Some (ex_profile 20 5 (Some march_10) 10)" by simp
  have h2: "last_message_date (ex_profile 20 5 (Some march_10) 10) = Some march_10" by simp
  have h3: "\<forall>(req, e) \<in> set [(ex_request False, ex_env march_10),
                                (ex_request True, ex_env march_10),
                                (ex_request False, ex_env march_10)]. today e = march_10"
    by simp
  from same_day_repeat_keeps_streak [OF h1 h2 h3] ex_run_same_day show ?thesis
    by simp
qed

section \<open>The ledger\<close>

text \<open>
  C6. In a completed interaction the handler hands a reward transaction to the backend exactly
  when the net point delta is not zero. Its kind is "boost" when the boost flag is set,
  whatever the sign of the delta; otherwise "streak" when more than 1 point was earned, with
  a description that carries the new streak length; otherwise "message". The ledger after
  the interaction is the ledger before it followed by that transaction, unless the backend
  reports an error on the insert.
\<close>

theorem ledger_entry_of_interaction:
  assumes "interaction req e w u p b r w'"
  shows "ledger_entry u p (today e) b =
      (if netDelta r \<noteq> 0 then
         Some \<lparr>user_id = u, points_change = netDelta r,
               transaction_type =
                 (if b then ''boost'' else if pointsEarned r > 1 then ''streak'' else ''message''),
               description =
                 (if b then ''Boost used for priority response''
                  else if pointsEarned r > 1
                    then ''Daily streak bonus ('' @ toString (newStreak r) @ '' days)''
                  else ''Message sent'')\<rparr>
       else None) \<and>
    reward_transactions w' =
      reward_transactions w @
        (if transactionError e then []
         else case ledger_entry u p (today e) b of None \<Rightarrow> [] | Some t \<Rightarrow> [t])"
proof -
  note res = interaction_result [OF assms]
  have delta: "netDelta r = pointChange (fst (streak_bonus p (today e))) b"
    by (simp add: netDelta_def res pointChange_def)
  have "ledger_entry u p (today e) b =
      (if netDelta r \<noteq> 0 then
         Some \<lparr>user_id = u, points_change = netDelta r,
               transaction_type =
                 (if b then ''boost'' else if pointsEarned r > 1 then ''streak'' else ''message''),
               description =
                 (if b then ''Boost used for priority response''
                  else if pointsEarned r > 1
                    then ''Daily streak bonus ('' @ toString (newStreak r) @ '' days)''
                  else ''Message sent'')\<rparr>
       else None)"
    unfolding delta res(2,3)
    by (simp add: ledger_entry_def Let_def split: prod.splits)
  with res(7) show ?thesis by simp
qed

theorem ledger_entry_of_interaction_witness:
  "interaction (ex_request False) (ex_env march_10)
     (ex_world (ex_profile 20 3 (Some march_9) 10)) ''user-1''
     (ex_profile 20 3 (Some march_9) 10) False (ex_reply 6 0 4 26)
     (ex_after False (ex_profile 26 4 (Some march_10) 11) [streak_entry]) \<and>
   netDelta (ex_reply 6 0 4 26) = 6 \<and>
   ledger_entry ''user-1'' (ex_profile 20 3 (Some march_9) 10) march_10 False =
     Some \<lparr>user_id = ''user-1'', points_change = 6, transaction_type = ''streak'',
           description = ''Daily streak bonus ('' @ toString 4 @ '' days)''\<rparr> \<and>
   toString 4 = ''4'' \<and>
   reward_transactions (ex_after False (ex_profile 26 4 (Some march_10) 11) [streak_entry]) =
     [\<lparr>user_id = ''user-1'', points_change = 6, transaction_type = ''streak'',
       description = ''Daily streak bonus ('' @ toString 4 @ '' days)''\<rparr>]"
proof -
  have ts: "toString 4 = ''4''"
    by (simp add: toString_def decimal.simps digit_def)
  have nd: "netDelta (ex_reply 6 0 4 26) = 6" by (simp add: netDelta_def)
  from ledger_entry_of_interaction [OF ex_run_streak] ex_run_streak nd ts show ?thesis
    by simp
qed

section \<open>Boost and the balance\<close>

text \<open>
  C7. A request with boost whose profile holds at least 10 points, on a day that is not the
  calendar day after the last message date, is accepted by the balance check; when it
  completes, the net point delta is -9 and the transaction is of kind "boost". With exactly
  10 points the resulting balance is 1.
\<close>

theorem boost_on_plain_day:
  assumes "reaches_check req e w u p True" and "10 \<le> reward_points p"
    and "\<not> spec_isConsecutiveDay (last_message_date p) (today e)"
  shows "accepted req e w u p True \<and>
    (\<forall>r w'. serve req e w = (Ok200 r, w') \<longrightarrow>
       netDelta r = - 9 \<and> totalPoints r = reward_points p - 9 \<and>
       ledger_entry u p (today e) True =
         Some \<lparr>user_id = u, points_change = - 9, transaction_type = ''boost'',
               description = ''Boost used for priority response''\<rparr> \<and>
       (\<not> transactionError e \<longrightarrow>
          reward_transactions w' = reward_transactions w @
            [\<lparr>user_id = u, points_change = - 9, transaction_type = ''boost'',
              description = ''Boost used for priority response''\<rparr>]) \<and>
       (reward_points p = 10 \<longrightarrow> totalPoints r = 1 \<and>
          (\<not> updateError e \<longrightarrow> map_option reward_points (profiles w' u) = Some 1)))"
proof -
  from assms(2) have ok: "\<not> (True \<and> reward_points p < 10)" by simp
  have acc: "accepted req e w u p True"
    by (rule reaches_check_accepted [OF assms(1) ok])
  have plain: "\<not> isConsecutiveDay (last_message_date p) (today e)"
    using assms(3)
    by (cases "last_message_date p")
      (simp_all add: isConsecutiveDay_def spec_isConsecutiveDay_def daysBetween_def
        isConsecutiveDay_iff [unfolded isConsecutiveDay_def, simplified])
  have earned: "fst (streak_bonus p (today e)) = 1"
    by (rule earned_plain_day [OF plain])
  then obtain s where sb: "streak_bonus p (today e) = (1, s)"
    by (cases "streak_bonus p (today e)") simp
  have "netDelta r = - 9 \<and> totalPoints r = reward_points p - 9 \<and>
       ledger_entry u p (today e) True =
         Some \<lparr>user_id = u, points_change = - 9, transaction_type = ''boost'',
               description = ''Boost used for priority response''\<rparr> \<and>
       (\<not> transactionError e \<longrightarrow>
          reward_transactions w' = reward_transactions w @
            [\<lparr>user_id = u, points_change = - 9, transaction_type = ''boost'',
              description = ''Boost used for priority response''\<rparr>]) \<and>
       (reward_points p = 10 \<longrightarrow> totalPoints r = 1 \<and>
          (\<not> updateError e \<longrightarrow> map_option reward_points (profiles w' u) = Some 1))"
    if run: "serve req e w = (Ok200 r, w')" for r w'
  proof -
    have int: "interaction req e w u p True r w'"
      by (rule reaches_check_interaction [OF assms(1) run])
    note res = interaction_result [OF int]
    have entry: "ledger_entry u p (today e) True =
         Some \<lparr>user_id = u, points_change = - 9, transaction_type = ''boost'',
               description = ''Boost used for priority response''\<rparr>"
      by (simp add: ledger_entry_def pointChange_def sb)
    have balance: "reward_points (updated_profile p (today e) True) = reward_points p - 9"
      by (simp add: updated_profile_def pointChange_def sb)
    show ?thesis
      using earned entry balance
      by (simp add: netDelta_def res pointChange_def)
  qed
  with acc show ?thesis by blast
qed

theorem boost_on_plain_day_witness:
  "reaches_check (ex_request True) (ex_env march_10)
     (ex_world (ex_profile 10 5 (Some march_10) 10)) ''user-1''
     (ex_profile 10 5 (Some march_10) 10) True \<and>
   10 \<le> reward_points (ex_profile 10 5 (Some march_10) 10) \<and>
   daysBetween march_10 march_10 \<noteq> 1 \<and>
   accepted (ex_request True) (ex_env march_10)
     (ex_world (ex_profile 10 5 (Some march_10) 10)) ''user-1''
     (ex_profile 10 5 (Some march_10) 10) True \<and>
   serve (ex_request True) (ex_env march_10) (ex_world (ex_profile 10 5 (Some march_10) 10)) =
     (Ok200 (ex_reply 1 10 5 1),
      ex_after True (ex_profile 1 5 (Some march_10) 11) [boost_entry (- 9)]) \<and>
   netDelta (ex_reply 1 10 5 1) = - 9 \<and> totalPoints (ex_reply 1 10 5 1) = 1 \<and>
   reward_transactions (ex_after True (ex_profile 1 5 (Some march_10) 11) [boost_entry (- 9)]) =
     [\<lparr>user_id = ''user-1'', points_change = - 9, transaction_type = ''boost'',
       description = ''Boost used for priority response''\<rparr>] \<and>
   map_option reward_points
     (profiles (ex_after True (ex_profile 1 5 (Some march_10) 11) [boost_entry (- 9)])
        ''user-1'') = Some 1"
proof -
  have h1: "reaches_check (ex_request True) (ex_env march_10)
     (ex_world (ex_profile 10 5 (Some march_10) 10)) ''user-1''
     (ex_profile 10 5 (Some march_10) 10) True"
    by (simp add: reaches_check_def ex_parse ex_fetch) (simp add: ex_request_def)
  have h2: "10 \<le> reward_points (ex_profile 10 5 (Some march_10) 10)" by simp
  have gap: "daysBetween march_10 march_10 \<noteq> 1" by (simp add: daysBetween_def)
  then have h3: "\<not> spec_isConsecutiveDay (last_message_date (ex_profile 10 5 (Some march_10) 10))
      (today (ex_env march_10))"
    by (simp add: spec_isConsecutiveDay_def)
  have run: "serve (ex_request True) (ex_env march_10)
      (ex_world (ex_profile 10 5 (Some march_10) 10)) =
     (Ok200 (ex_reply 1 10 5 1),
      ex_after True (ex_profile 1 5 (Some march_10) 11) [boost_entry (- 9)])"
    using ex_run_boost by (simp add: interaction_def)
  from boost_on_plain_day [OF h1 h2 h3] h1 h2 gap run show ?thesis
    by simp
qed

text \<open>
  C8, as amended. An accepted interaction on a profile whose balance is not negative never
  leaves a negative balance: the balance of the reply is at least 1, and the profile holds
  that balance, or its old one when the backend reports an error on the update.
\<close>

theorem balance_stays_positive:
  assumes "interaction req e w u p b r w'" and "0 \<le> reward_points p"
  shows "1 \<le> totalPoints r \<and>
    map_option reward_points (profiles w' u) =
      Some (if updateError e then reward_points p else totalPoints r)"
proof -
  note res = interaction_result [OF assms(1)]
  from assms(1) have p: "profiles w u = Some p" by (simp add: interaction_def)
  have "1 \<le> totalPoints r"
    using res(1) assms(2) earned_cases [of p "today e"]
    by (auto simp: res(4) pointChange_def)
  moreover have "map_option reward_points (profiles w' u) =
      Some (if updateError e then reward_points p else totalPoints r)"
    using p by (simp add: res updated_profile_def split: prod.splits)
  ultimately show ?thesis by simp
qed

theorem balance_stays_positive_witness:
  "interaction (ex_request True) (ex_env march_10)
     (ex_world (ex_profile 10 5 (Some march_10) 10)) ''user-1''
     (ex_profile 10 5 (Some march_10) 10) True (ex_reply 1 10 5 1)
     (ex_after True (ex_profile 1 5 (Some march_10) 11) [boost_entry (- 9)]) \<and>
   0 \<le> reward_points (ex_profile 10 5 (Some march_10) 10) \<and>
   1 \<le> totalPoints (ex_reply 1 10 5 1) \<and>
   map_option reward_points
     (profiles (ex_after True (ex_profile 1 5 (Some march_10) 11) [boost_entry (- 9)])
        ''user-1'') = Some 1"
  using balance_stays_positive [OF ex_run_boost] ex_run_boost by simp

text \<open>
  C8, as stated, is refuted: there is no profile with a balance of at least 0 and no accepted
  interaction on it after which the balance, in the reply or in the profile, is negative.
\<close>

theorem no_accepted_interaction_goes_negative:
  "\<not> (\<exists>req e w u p b r w'.
        0 \<le> reward_points p \<and> accepted req e w u p b \<and> interaction req e w u p b r w' \<and>
        (totalPoints r < 0 \<or> (\<exists>p'. profiles w' u = Some p' \<and> reward_points p' < 0)))"
proof
  assume "\<exists>req e w u p b r w'.
        0 \<le> reward_points p \<and> accepted req e w u p b \<and> interaction req e w u p b r w' \<and>
        (totalPoints r < 0 \<or> (\<exists>p'. profiles w' u = Some p' \<and> reward_points p' < 0))"
  then obtain req e w u p b r w' where nonneg: "0 \<le> reward_points p"
    and int: "interaction req e w u p b r w'"
    and neg: "totalPoints r < 0 \<or> (\<exists>p'. profiles w' u = Some p' \<and> reward_points p' < 0)"
    by blast
  note res = interaction_result [OF int]
  from int have p: "profiles w u = Some p" by (simp add: interaction_def)
  have total: "1 \<le> totalPoints r"
    using res(1) nonneg earned_cases [of p "today e"]
    by (auto simp: res(4) pointChange_def)
  have stored: "profiles w' u = Some p' \<Longrightarrow> 0 \<le> reward_points p'" for p'
    using p nonneg total
    by (auto simp: res(6) res(4) updated_profile_def split: prod.splits if_splits)
  from neg total stored show False by auto
qed

section \<open>A scenario\<close>

text \<open>
  C9. A profile with 20 points, a streak of 3, 10 messages and yesterday as last message
  date, in an interaction without boost on the day after yesterday: the streak becomes 4,
  6 points are earned, the balance is 26, and the transaction is of kind "streak" with a
  description that contains "4".
\<close>

theorem streak_scenario:
  assumes "interaction req e w u p False r w'"
    and "p = \<lparr>reward_points = 20, daily_streak = 3, last_message_date = Some yesterday,
               total_messages = 10\<rparr>"
    and "valid_date yesterday" and "today e = nextDay yesterday"
  shows "newStreak r = 4 \<and> pointsEarned r = 6 \<and> totalPoints r = 26 \<and>
    ledger_entry u p (today e) False =
      Some \<lparr>user_id = u, points_change = 6, transaction_type = ''streak'',
            description = ''Daily streak bonus (4 days)''\<rparr> \<and>
    contains ''Daily streak bonus (4 days)'' ''4'' \<and>
    (\<not> updateError e \<longrightarrow>
       profiles w' u = Some \<lparr>reward_points = 26, daily_streak = 4,
                              last_message_date = Some (today e), total_messages = 11\<rparr>) \<and>
    (\<not> transactionError e \<longrightarrow>
       reward_transactions w' = reward_transactions w @
         [\<lparr>user_id = u, points_change = 6, transaction_type = ''streak'',
           description = ''Daily streak bonus (4 days)''\<rparr>])"
proof -
  note res = interaction_result [OF assms(1)]
  have gap: "MakeDay (today e) - MakeDay yesterday = 1"
    using assms(3,4) by (simp add: MakeDay_nextDay)
  have sb: "streak_bonus p (today e) = (6, 4)"
    using streak_bonus_consecutive [of p yesterday "today e"] gap assms(2) by simp
  have ts: "toString 4 = ''4''"
    by (simp add: toString_def decimal.simps digit_def)
  have entry: "ledger_entry u p (today e) False =
      Some \<lparr>user_id = u, points_change = 6, transaction_type = ''streak'',
            description = ''Daily streak bonus (4 days)''\<rparr>"
    by (simp add: ledger_entry_def sb pointChange_def ts)
  have fields: "reward_points p = 20" "total_messages p = 10"
    using assms(2) by simp_all
  have upd: "updated_profile p (today e) False =
      \<lparr>reward_points = 26, daily_streak = 4, last_message_date = Some (today e),
       total_messages = 11\<rparr>"
    by (simp add: updated_profile_def sb pointChange_def fields)
  have sub: "contains ''Daily streak bonus (4 days)'' ''4''"
    by (simp add: contains_def)
  have reply: "newStreak r = 4 \<and> pointsEarned r = 6 \<and> totalPoints r = 26"
    by (simp add: res sb pointChange_def fields)
  have stored: "\<not> updateError e \<longrightarrow>
       profiles w' u = Some \<lparr>reward_points = 26, daily_streak = 4,
                              last_message_date = Some (today e), total_messages = 11\<rparr>"
    by (simp add: res(6) upd)
  have ledger: "\<not> transactionError e \<longrightarrow>
       reward_transactions w' = reward_transactions w @
         [\<lparr>user_id = u, points_change = 6, transaction_type = ''streak'',
           description = ''Daily streak bonus (4 days)''\<rparr>]"
    by (simp add: res(7) entry)
  from reply entry sub stored ledger show ?thesis by blast
qed

theorem streak_scenario_witness:
  "interaction (ex_request False) (ex_env march_10)
     (ex_world (ex_profile 20 3 (Some march_9) 10)) ''user-1''
     (ex_profile 20 3 (Some march_9) 10) False (ex_reply 6 0 4 26)
     (ex_after False (ex_profile 26 4 (Some march_10) 11) [streak_entry]) \<and>
   reward_points (ex_profile 20 3 (Some march_9) 10) = 20 \<and>
   daily_streak (ex_profile 20 3 (Some march_9) 10) = 3 \<and>
   last_message_date (ex_profile 20 3 (Some march_9) 10) = Some march_9 \<and>
   total_messages (ex_profile 20 3 (Some march_9) 10) = 10 \<and>
   valid_date march_9 \<and> today (ex_env march_10) = nextDay march_9 \<and>
   newStreak (ex_reply 6 0 4 26) = 4 \<and> pointsEarned (ex_reply 6 0 4 26) = 6 \<and>
   totalPoints (ex_reply 6 0 4 26) = 26 \<and>
   contains ''Daily streak bonus (4 days)'' ''4'' \<and>
   profiles (ex_after False (ex_profile 26 4 (Some march_10) 11) [streak_entry]) ''user-1'' =
     Some \<lparr>reward_points = 26, daily_streak = 4, last_message_date = Some march_10,
           total_messages = 11\<rparr> \<and>
   reward_transactions (ex_after False (ex_profile 26 4 (Some march_10) 11) [streak_entry]) =
     [\<lparr>user_id = ''user-1'', points_change = 6, transaction_type = ''streak'',
       description = ''Daily streak bonus (4 days)''\<rparr>]"
proof -
  have h2: "ex_profile 20 3 (Some march_9) 10 =
     \<lparr>reward_points = 20, daily_streak = 3, last_message_date = Some march_9,
      total_messages = 10\<rparr>" by (simp add: ex_profile_def)
  have h3: "valid_date march_9" by (rule march_next)
  have h4: "today (ex_env march_10) = nextDay march_9" by (simp add: march_next)
  from streak_scenario [OF ex_run_streak h2 h3 h4] ex_run_streak h3 h4 show ?thesis
    by simp
qed

section \<open>The net point delta\<close>

text \<open>
  C10. In every completed interaction the net point delta is one of -9, -4, 1 and 6, and so
  never 0: the handler hands exactly one reward transaction, of that delta, to the backend,
  and the ledger grows by exactly that transaction unless the backend reports an error on
  the insert.
\<close>

theorem net_delta_never_zero:
  assumes "interaction req e w u p b r w'"
  shows "(netDelta r = - 9 \<or> netDelta r = - 4 \<or> netDelta r = 1 \<or> netDelta r = 6) \<and>
    netDelta r \<noteq> 0 \<and> totalPoints r = reward_points p + netDelta r \<and>
    (\<exists>t. ledger_entry u p (today e) b = Some t \<and> points_change t = netDelta r \<and>
         reward_transactions w' =
           reward_transactions w @ (if transactionError e then [] else [t]))"
proof -
  note res = interaction_result [OF assms]
  obtain earned streak where sb: "streak_bonus p (today e) = (earned, streak)"
    by (cases "streak_bonus p (today e)")
  with earned_cases [of p "today e"] have earned: "earned = 1 \<or> earned = 6" by simp
  have delta: "netDelta r = pointChange earned b"
    by (simp add: netDelta_def res sb pointChange_def)
  from earned have vals: "netDelta r = - 9 \<or> netDelta r = - 4 \<or> netDelta r = 1 \<or> netDelta r = 6"
    by (auto simp: delta pointChange_def)
  then have nonzero: "netDelta r \<noteq> 0" by auto
  have total: "totalPoints r = reward_points p + netDelta r"
    by (simp add: res(4) sb delta)
  from nonzero obtain t where t: "ledger_entry u p (today e) b = Some t"
    and pc: "points_change t = netDelta r"
    by (auto simp: ledger_entry_def sb delta)
  have "reward_transactions w' =
      reward_transactions w @ (if transactionError e then [] else [t])"
    by (simp add: res(7) t)
  with vals nonzero total t pc show ?thesis by blast
qed

theorem net_delta_never_zero_witness:
  "interaction (ex_request True) (ex_env march_10)
     (ex_world (ex_profile 10 5 (Some march_10) 10)) ''user-1''
     (ex_profile 10 5 (Some march_10) 10) True (ex_reply 1 10 5 1)
     (ex_after True (ex_profile 1 5 (Some march_10) 11) [boost_entry (- 9)]) \<and>
   netDelta (ex_reply 1 10 5 1) = - 9 \<and> netDelta (ex_reply 1 10 5 1) \<noteq> 0 \<and>
   totalPoints (ex_reply 1 10 5 1) = 10 + netDelta (ex_reply 1 10 5 1) \<and>
   length (reward_transactions
     (ex_after True (ex_profile 1 5 (Some march_10) 11) [boost_entry (- 9)])) =
   length (reward_transactions (ex_world (ex_profile 10 5 (Some march_10) 10))) + 1"
proof -
  have nd: "netDelta (ex_reply 1 10 5 1) = - 9" by (simp add: netDelta_def)
  from net_delta_never_zero [OF ex_run_boost] ex_run_boost nd show ?thesis
    by simp
qed

end
